theory Spec2Isabelle
  imports Complex_Main
begin

section \<open>Python values and the built-ins the pipeline uses\<close>

text \<open>
  The detection pipeline of \<^verbatim>\<open>Detect_demo.py\<close> works on loosely typed values: whatever
  \<^verbatim>\<open>json.loads\<close> returns, and the dictionaries it builds itself. They are modelled by
  one datatype. A dictionary is an association list read with \<open>map_of\<close>. A Python float
  is modelled by a real number. The conversion of an integer to a float has its
  OverflowError, and the rounding of a conversion and of a difference is a parameter;
  the scaling of a box is computed exactly; infinities and NaN are outside the model.
  Byte strings and text are both \<open>string\<close>.
\<close>

datatype py =
    PNone
  | PBool bool
  | PInt int
  | PFloat real
  | PStr string
  | PList "py list"
  | PDict "(string \<times> py) list"

type_synonym bytes = string

text \<open>Exceptions are values; a function that can raise returns \<open>pyerr + 'a\<close>.\<close>

datatype pyerr =
    TypeError
  | ValueError
  | AttributeError
  | KeyError
  | HTTPError int
  | BadZipFile
  | OSError
  | OverflowError

definition bind_err :: "'e + 'a \<Rightarrow> ('a \<Rightarrow> 'e + 'b) \<Rightarrow> 'e + 'b" where
  "bind_err m f = (case m of Inl e \<Rightarrow> Inl e | Inr x \<Rightarrow> f x)"

text \<open>
  The conversions of Python that the code applies to JSON values and that are not
  determined by the repository: \<^verbatim>\<open>float(s)\<close> on a string (it parses the string or
  raises ValueError), \<^verbatim>\<open>str(v)\<close> on a value that is not a string, and the rounding
  of a real number to the nearest float. They are parameters.
\<close>

record builtins =
  float_of_str :: "string \<Rightarrow> real option"
  str_of_value :: "py \<Rightarrow> string"
  round_float :: "real \<Rightarrow> real"

text \<open>
  The conversion of an integer to a float. An integer of magnitude up to \<open>2 ^ 53\<close> is
  a float; a larger one is rounded; one that rounds beyond the largest float, which is
  \<open>2 ^ 1024 - 2 ^ 971\<close>, raises OverflowError.
\<close>

definition FLOAT_INT_BOUND :: int where
  "FLOAT_INT_BOUND = 2 ^ 1024 - 2 ^ 970"

definition int_to_float :: "builtins \<Rightarrow> int \<Rightarrow> pyerr + real" where
  "int_to_float B i =
     (if \<bar>i\<bar> \<le> 2 ^ 53 then Inr (real_of_int i)
      else if \<bar>i\<bar> < FLOAT_INT_BOUND then Inr (round_float B (real_of_int i))
      else Inl OverflowError)"

text \<open>
  The difference of two floats: the exact difference, rounded. A difference with a zero
  operand is exact.
\<close>

definition float_sub :: "builtins \<Rightarrow> real \<Rightarrow> real \<Rightarrow> real" where
  "float_sub B a b = (if a = 0 \<or> b = 0 then a - b else round_float B (a - b))"

text \<open>Truth value testing, as \<^verbatim>\<open>or\<close>, \<^verbatim>\<open>not\<close> and \<^verbatim>\<open>if\<close> apply it.\<close>

fun truthy :: "py \<Rightarrow> bool" where
  "truthy PNone = False"
| "truthy (PBool b) = b"
| "truthy (PInt i) = (i \<noteq> 0)"
| "truthy (PFloat r) = (r \<noteq> 0)"
| "truthy (PStr s) = (s \<noteq> [])"
| "truthy (PList xs) = (xs \<noteq> [])"
| "truthy (PDict kv) = (kv \<noteq> [])"

text \<open>\<^verbatim>\<open>a or b\<close> for operands that cannot raise: the first operand when it is truthy.\<close>

definition py_or :: "py \<Rightarrow> py \<Rightarrow> py" where
  "py_or a b = (if truthy a then a else b)"

text \<open>\<^verbatim>\<open>d.get(k)\<close> and \<^verbatim>\<open>d.get(k, default)\<close>.\<close>

definition dict_get_default :: "(string \<times> py) list \<Rightarrow> string \<Rightarrow> py \<Rightarrow> py" where
  "dict_get_default kv k d = (case map_of kv k of None \<Rightarrow> d | Some v \<Rightarrow> v)"

definition dict_get :: "(string \<times> py) list \<Rightarrow> string \<Rightarrow> py" where
  "dict_get kv k = dict_get_default kv k PNone"

text \<open>
  \<^verbatim>\<open>float(v)\<close>: floats and booleans convert, integers convert or overflow, strings
  are parsed, the rest raises.
\<close>

fun py_float :: "builtins \<Rightarrow> py \<Rightarrow> pyerr + real" where
  "py_float B PNone = Inl TypeError"
| "py_float B (PBool b) = Inr (if b then 1 else 0)"
| "py_float B (PInt i) = int_to_float B i"
| "py_float B (PFloat r) = Inr r"
| "py_float B (PStr s) = (case float_of_str B s of None \<Rightarrow> Inl ValueError | Some r \<Rightarrow> Inr r)"
| "py_float B (PList xs) = Inl TypeError"
| "py_float B (PDict kv) = Inl TypeError"

text \<open>
  \<^verbatim>\<open>v - x\<close> for a float \<open>x\<close>: a boolean or an integer is converted to a float
  first, which can overflow; other values raise TypeError.
\<close>

fun py_sub_float :: "builtins \<Rightarrow> py \<Rightarrow> real \<Rightarrow> pyerr + real" where
  "py_sub_float B (PBool b) x = Inr (float_sub B (if b then 1 else 0) x)"
| "py_sub_float B (PInt i) x = bind_err (int_to_float B i) (\<lambda>a. Inr (float_sub B a x))"
| "py_sub_float B (PFloat r) x = Inr (float_sub B r x)"
| "py_sub_float B PNone x = Inl TypeError"
| "py_sub_float B (PStr s) x = Inl TypeError"
| "py_sub_float B (PList xs) x = Inl TypeError"
| "py_sub_float B (PDict kv) x = Inl TypeError"

text \<open>\<^verbatim>\<open>str(v)\<close>: a string is returned as it is.\<close>

definition py_str :: "builtins \<Rightarrow> py \<Rightarrow> string" where
  "py_str B v = (case v of PStr s \<Rightarrow> s | _ \<Rightarrow> str_of_value B v)"

section \<open>Geometry normalizer: \<^verbatim>\<open>_to_pixels\<close>\<close>

text \<open>
  The first four statements of \<^verbatim>\<open>_to_pixels\<close> read \<open>x\<close>, \<open>y\<close>, \<open>w\<close> and \<open>h\<close>.
  The right operand of \<^verbatim>\<open>box.get("width") or (box.get("xmax", 0) - x)\<close> is
  evaluated only when the left one is falsy, so a subtraction that would raise is
  skipped when \<open>width\<close> is truthy.
\<close>

definition box_fields :: "builtins \<Rightarrow> (string \<times> py) list \<Rightarrow> pyerr + (real \<times> real \<times> real \<times> real)" where
  "box_fields B box =
     bind_err (py_float B (py_or (py_or (dict_get box ''x'') (dict_get box ''xmin'')) (PInt 0))) (\<lambda>x.
     bind_err (py_float B (py_or (py_or (dict_get box ''y'') (dict_get box ''ymin'')) (PInt 0))) (\<lambda>y.
     bind_err (if truthy (dict_get box ''width'') then py_float B (dict_get box ''width'')
               else bind_err (py_sub_float B (dict_get_default box ''xmax'' (PInt 0)) x)
                      (\<lambda>d. py_float B (PFloat d))) (\<lambda>w.
     bind_err (if truthy (dict_get box ''height'') then py_float B (dict_get box ''height'')
               else bind_err (py_sub_float B (dict_get_default box ''ymax'' (PInt 0)) y)
                      (\<lambda>d. py_float B (PFloat d))) (\<lambda>h.
     Inr (x, y, w, h)))))"

text \<open>
  The whole function. A value without a \<^verbatim>\<open>get\<close> method (anything but a dictionary)
  raises AttributeError at the first statement. \<open>width\<close> and \<open>height\<close> are the
  pixel dimensions of an image, integers far inside the range of the floats, and the
  products and sums of the scaling are computed exactly.
\<close>

definition to_pixels :: "builtins \<Rightarrow> py \<Rightarrow> int \<Rightarrow> int \<Rightarrow> pyerr + real list" where
  "to_pixels B box width height =
     (case box of
        PDict kv \<Rightarrow>
          bind_err (box_fields B kv) (\<lambda>(x, y, w, h).
            let (x, w) = (if 0 \<le> x \<and> x \<le> 1 \<and> 0 \<le> w \<and> w \<le> 1
                          then (x * real_of_int width, w * real_of_int width) else (x, w));
                (y, h) = (if 0 \<le> y \<and> y \<le> 1 \<and> 0 \<le> h \<and> h \<le> 1
                          then (y * real_of_int height, h * real_of_int height) else (y, h))
            in Inr [x, y, x + w, y + h])
      | _ \<Rightarrow> Inl AttributeError)"

section \<open>Response unpacker: \<^verbatim>\<open>_extract_detections\<close>\<close>

text \<open>
  The \<^verbatim>\<open>for key in (...)\<close> loop with its \<^verbatim>\<open>else\<close> branch: the list under the first
  key that holds a list, or nothing when the loop ends without \<^verbatim>\<open>break\<close>.
\<close>

fun find_items :: "(string \<times> py) list \<Rightarrow> string list \<Rightarrow> py list option" where
  "find_items kv [] = None"
| "find_items kv (key # keys) =
     (case dict_get kv key of PList xs \<Rightarrow> Some xs | _ \<Rightarrow> find_items kv keys)"

definition items_of :: "py \<Rightarrow> py list" where
  "items_of data =
     (case data of
        PDict kv \<Rightarrow>
          (case find_items kv [''predictions'', ''detections'', ''objects'', ''results'', ''data''] of
             Some xs \<Rightarrow> xs
           | None \<Rightarrow> [data])
      | PList xs \<Rightarrow> xs
      | _ \<Rightarrow> [])"

text \<open>The body of the second loop for an item that is a dictionary.\<close>

definition detection_of :: "builtins \<Rightarrow> (string \<times> py) list \<Rightarrow> int \<Rightarrow> int \<Rightarrow> pyerr + py" where
  "detection_of B item width height =
     (let bbox_info = py_or (py_or (py_or (dict_get item ''bbox'') (dict_get item ''box''))
                          (dict_get item ''bounding_box'')) (PDict [])
      in bind_err (to_pixels B bbox_info width height) (\<lambda>bbox.
         let label = py_str B (py_or (py_or (py_or (dict_get item ''label'') (dict_get item ''class''))
                          (dict_get item ''text'')) (PStr ''object''))
         in bind_err (py_float B (py_or (py_or (dict_get item ''confidence'') (dict_get item ''score''))
                          (PInt 0))) (\<lambda>confidence.
            Inr (PDict [(''label'', PStr label),
                        (''confidence'', PFloat confidence),
                        (''bbox'', PList (map PFloat bbox))]))))"

text \<open>
  The second loop, with the list \<^verbatim>\<open>detections\<close> as accumulator: an item that is not a
  dictionary is skipped, an exception ends the loop.
\<close>

fun detections_loop :: "builtins \<Rightarrow> int \<Rightarrow> int \<Rightarrow> py list \<Rightarrow> py list \<Rightarrow> pyerr + py list" where
  "detections_loop B width height [] detections = Inr detections"
| "detections_loop B width height (item # items) detections =
     (case item of
        PDict kv \<Rightarrow>
          bind_err (detection_of B kv width height) (\<lambda>d.
            detections_loop B width height items (detections @ [d]))
      | _ \<Rightarrow> detections_loop B width height items detections)"

definition extract_detections :: "builtins \<Rightarrow> py \<Rightarrow> int \<Rightarrow> int \<Rightarrow> pyerr + py list" where
  "extract_detections B data width height = detections_loop B width height (items_of data) []"

section \<open>The remote service\<close>

text \<open>
  An HTTP response as the code reads it: the status, the body and the lookup of a header
  by name. The remote service is a parameter: every HTTP call is a pure function from
  the request to its response (transport failures and timeouts are outside the model).
  The polls of one detection request are told apart by their position in the sequence
  of GET requests. \<open>auth_value\<close> is the token \<^verbatim>\<open>_auth_value()\<close> finds, \<open>response_json\<close>
  is \<^verbatim>\<open>response.json()\<close> and \<open>uuid_canonical\<close> is \<^verbatim>\<open>str(uuid.UUID(v))\<close>.
\<close>

record response =
  status_code :: int
  content :: bytes
  headers_get :: "string \<Rightarrow> string option"

record remote =
  auth_value :: string
  http_post :: "string \<Rightarrow> (string \<times> string) list \<Rightarrow> py \<Rightarrow> response"
  http_put :: "py \<Rightarrow> bytes \<Rightarrow> (string \<times> string) list \<Rightarrow> response"
  http_get :: "string \<Rightarrow> (string \<times> string) list \<Rightarrow> nat \<Rightarrow> response"
  response_json :: "response \<Rightarrow> pyerr + py"
  uuid_canonical :: "py \<Rightarrow> pyerr + string"

definition NVAI_URL :: string where
  "NVAI_URL = ''https://ai.api.nvidia.com/v1/cv/nvidia/nv-grounding-dino''"

definition NVAI_POLLING_URL :: string where
  "NVAI_POLLING_URL = ''https://api.nvcf.nvidia.com/v2/nvcf/pexec/status/''"

definition ASSETS_URL :: string where
  "ASSETS_URL = ''https://api.nvcf.nvidia.com/v2/nvcf/assets''"

definition MAX_RETRIES :: int where
  "MAX_RETRIES = 5"

text \<open>
  \<^verbatim>\<open>response.raise_for_status()\<close> of the requests library: it raises HTTPError for a
  status from 400 to 599 and returns otherwise.
\<close>

definition raise_for_status :: "response \<Rightarrow> pyerr + unit" where
  "raise_for_status r =
     (if 400 \<le> status_code r \<and> status_code r < 600 then Inl (HTTPError (status_code r))
      else Inr ())"

text \<open>The \<^verbatim>\<open>Authorization\<close> entry, added to a header dictionary when a token is set.\<close>

definition with_auth :: "remote \<Rightarrow> (string \<times> string) list \<Rightarrow> (string \<times> string) list" where
  "with_auth R headers =
     (if auth_value R \<noteq> [] then headers @ [(''Authorization'', ''Bearer '' @ auth_value R)]
      else headers)"


subsection \<open>Asset uploader: \<^verbatim>\<open>_upload_asset\<close>\<close>


subsection \<open>Detection requester: \<^verbatim>\<open>_request_zip\<close>\<close>

definition request_headers :: "remote \<Rightarrow> string \<Rightarrow> (string \<times> string) list" where
  "request_headers R asset_id =
     with_auth R [(''Content-Type'', ''application/json''),
                  (''NVCF-INPUT-ASSET-REFERENCES'', asset_id),
                  (''NVCF-FUNCTION-ASSET-IDS'', asset_id)]"

definition request_payload :: "string \<Rightarrow> string \<Rightarrow> string \<Rightarrow> py" where
  "request_payload asset_id prompt_text content_type =
     PDict [(''model'', PStr ''Grounding-Dino''),
            (''messages'',
               PList [PDict [(''role'', PStr ''user''),
                             (''content'',
                                PList [PDict [(''type'', PStr ''text''), (''text'', PStr prompt_text)],
                                       PDict [(''type'', PStr ''media_url''),
                                              (''media_url'',
                                                 PDict [(''url'', PStr (''data:'' @ content_type @
                                                           '';asset_id,'' @ asset_id))])]])]]),
            (''threshold'', PFloat 0.3)]"

definition poll_headers :: "remote \<Rightarrow> (string \<times> string) list" where
  "poll_headers R = with_auth R [(''accept'', ''application/json'')]"

text \<open>
  The polling loop. Besides the bytes the code returns, the model returns the value of
  \<^verbatim>\<open>retries\<close> when the loop is left and the number of GET requests issued so far.
  The delay before each request has no effect on the result and is not modelled.
\<close>

function poll_loop :: "remote \<Rightarrow> string \<Rightarrow> (string \<times> string) list \<Rightarrow> int \<Rightarrow> nat \<Rightarrow> bytes \<times> int \<times> nat" where
  "poll_loop R poll_url hdrs retries polls =
     (if retries > 0 then
        (let poll = http_get R poll_url hdrs polls in
         if status_code poll = 200 then (content poll, retries, Suc polls)
         else if status_code poll \<noteq> 202 then ([], retries, Suc polls)
         else poll_loop R poll_url hdrs (retries - 1) (Suc polls))
      else ([], retries, polls))"
  by pat_completeness auto
termination
  by (relation "measure (\<lambda>(R, poll_url, hdrs, retries, polls). nat retries)") auto

text \<open>
  The function with its bookkeeping: the result (an exception or the returned bytes),
  the retries left of the budget and the number of polls issued. A run that never
  enters the loop leaves the budget untouched.
\<close>

definition request_zip_run :: "remote \<Rightarrow> string \<Rightarrow> string \<Rightarrow> string \<Rightarrow> (pyerr + bytes) \<times> int \<times> nat" where
  "request_zip_run R asset_id prompt_text content_type =
     (let response = http_post R NVAI_URL (request_headers R asset_id)
                       (request_payload asset_id prompt_text content_type)
      in if status_code response = 200 then (Inr (content response), MAX_RETRIES, 0)
         else if status_code response = 202 then
           (let reqid = (case headers_get response ''NVCF-REQID'' of None \<Rightarrow> [] | Some v \<Rightarrow> v);
                poll_url = NVAI_POLLING_URL @ reqid
            in case poll_loop R poll_url (poll_headers R) MAX_RETRIES 0 of
                 (body, retries, polls) \<Rightarrow> (Inr body, retries, polls))
         else (bind_err (raise_for_status response) (\<lambda>_. Inr (content response)),
               MAX_RETRIES, 0))"

definition request_zip :: "remote \<Rightarrow> string \<Rightarrow> string \<Rightarrow> string \<Rightarrow> pyerr + bytes" where
  "request_zip R asset_id prompt_text content_type =
     fst (request_zip_run R asset_id prompt_text content_type)"

text \<open>The response to the submit request and to the \<open>k\<close>-th poll of a call, for stating properties.\<close>

definition submit_response :: "remote \<Rightarrow> string \<Rightarrow> string \<Rightarrow> string \<Rightarrow> response" where
  "submit_response R asset_id prompt_text content_type =
     http_post R NVAI_URL (request_headers R asset_id)
       (request_payload asset_id prompt_text content_type)"

definition poll_response :: "remote \<Rightarrow> string \<Rightarrow> string \<Rightarrow> string \<Rightarrow> nat \<Rightarrow> response" where
  "poll_response R asset_id prompt_text content_type k =
     http_get R
       (NVAI_POLLING_URL @
          (case headers_get (submit_response R asset_id prompt_text content_type) ''NVCF-REQID'' of
             None \<Rightarrow> [] | Some v \<Rightarrow> v))
       (poll_headers R) k"

section \<open>Response unpacker: \<^verbatim>\<open>_parse_zip\<close>\<close>

text \<open>
  An opened archive is what the code uses of \<^verbatim>\<open>zipfile.ZipFile\<close>: the listing of
  names and the read of an entry by its name, which can fail. Opening an archive and
  decoding a JSON document (\<^verbatim>\<open>json.loads(raw.decode("utf-8"))\<close>) are parameters.
\<close>

record archive =
  namelist :: "string list"
  zf_read :: "string \<Rightarrow> pyerr + bytes"

record unpacking =
  open_zip :: "bytes \<Rightarrow> pyerr + archive"
  json_loads :: "bytes \<Rightarrow> pyerr + py"

text \<open>
  \<^verbatim>\<open>name.lower()\<close> on the letters A to Z; other characters are kept. No character
  outside ASCII is lowered to a letter of the suffixes tested below, so the suffix tests
  agree with Python's.
\<close>

definition char_lower :: "char \<Rightarrow> char" where
  "char_lower c =
     (case map_of (zip ''ABCDEFGHIJKLMNOPQRSTUVWXYZ'' ''abcdefghijklmnopqrstuvwxyz'') c of
        None \<Rightarrow> c
      | Some l \<Rightarrow> l)"

definition lower :: "string \<Rightarrow> string" where
  "lower s = map char_lower s"

definition endswith :: "string \<Rightarrow> string \<Rightarrow> bool" where
  "endswith s suffix = (length suffix \<le> length s \<and> drop (length s - length suffix) s = suffix)"

definition is_image_name :: "string \<Rightarrow> bool" where
  "is_image_name name =
     (endswith (lower name) ''.png'' \<or> endswith (lower name) ''.jpg'' \<or>
      endswith (lower name) ''.jpeg'' \<or> endswith (lower name) ''.webp'')"

definition is_json_name :: "string \<Rightarrow> bool" where
  "is_json_name name = endswith (lower name) ''.json''"

text \<open>
  The loop over \<^verbatim>\<open>zf.namelist()\<close>, with the state \<open>(detections, annotated)\<close>. A failed
  read of an image entry raises; a failed read or a failed decoding of a JSON entry is
  caught and the loop continues; an exception of \<^verbatim>\<open>_extract_detections\<close> is raised
  outside the \<^verbatim>\<open>try\<close> block and ends the loop.
\<close>

fun parse_entries :: "unpacking \<Rightarrow> builtins \<Rightarrow> archive \<Rightarrow> int \<Rightarrow> int \<Rightarrow> string list \<Rightarrow>
    py list \<times> bytes \<Rightarrow> pyerr + (py list \<times> bytes)" where
  "parse_entries U B zf width height [] (detections, annotated) = Inr (detections, annotated)"
| "parse_entries U B zf width height (name # names) (detections, annotated) =
     bind_err (if annotated = [] \<and> is_image_name name then zf_read zf name else Inr annotated)
       (\<lambda>annotated.
          if is_json_name name then
            (case bind_err (zf_read zf name) (json_loads U) of
               Inl _ \<Rightarrow> parse_entries U B zf width height names (detections, annotated)
             | Inr data \<Rightarrow>
                 bind_err (extract_detections B data width height) (\<lambda>ds.
                   parse_entries U B zf width height names (detections @ ds, annotated)))
          else parse_entries U B zf width height names (detections, annotated))"

definition parse_zip :: "unpacking \<Rightarrow> builtins \<Rightarrow> bytes \<Rightarrow> int \<Rightarrow> int \<Rightarrow> pyerr + (py list \<times> bytes)" where
  "parse_zip U B zip_bytes width height =
     (if zip_bytes = [] then Inr ([], [])
      else bind_err (open_zip U zip_bytes) (\<lambda>zf.
             parse_entries U B zf width height (namelist zf) ([], [])))"

section \<open>Fallback annotator: \<^verbatim>\<open>annotate\<close>\<close>









section \<open>Pipeline orchestrator: \<^verbatim>\<open>detect\<close>\<close>


section \<open>Concrete instances for evaluation\<close>

text \<open>
  A small instance of the built-ins: only the string \<open>1.5\<close> parses as a float, and
  rounding is the identity, as it is on the differences of the examples.
\<close>

definition demo_builtins :: builtins where
  "demo_builtins =
     \<lparr>float_of_str = (\<lambda>s. if s = ''1.5'' then Some 1.5 else None),
      str_of_value = (\<lambda>v. ''?''),
      round_float = (\<lambda>r. r)\<rparr>"

section \<open>Notions used in the statements\<close>

text \<open>
  A number that converts to a float: a boolean, a float, or an integer below the bound
  of the conversion. On these values \<^verbatim>\<open>float\<close> and subtraction do not raise.
\<close>

fun numeric :: "py \<Rightarrow> bool" where
  "numeric (PBool b) = True"
| "numeric (PInt i) = (\<bar>i\<bar> < FLOAT_INT_BOUND)"
| "numeric (PFloat r) = True"
| "numeric v = False"

text \<open>
  Stated from the specification, for comparison with \<open>box_fields\<close>: the extent is the
  size field when present, else the maximum minus the position, else 0.
\<close>

definition claimed_extent :: "builtins \<Rightarrow> (string \<times> py) list \<Rightarrow> string \<Rightarrow> string \<Rightarrow> real \<Rightarrow> pyerr + real" where
  "claimed_extent B box size_key max_key pos =
     (case map_of box size_key of
        Some v \<Rightarrow> py_float B v
      | None \<Rightarrow> (case map_of box max_key of Some m \<Rightarrow> py_sub_float B m pos | None \<Rightarrow> Inr 0))"

text \<open>
  Stated from the specification, for comparison with \<open>detection_of\<close>: the value of
  the first key of a list that is present in the record, or a default.
\<close>

fun first_present :: "(string \<times> py) list \<Rightarrow> string list \<Rightarrow> py \<Rightarrow> py" where
  "first_present item [] d = d"
| "first_present item (k # ks) d =
     (case map_of item k of Some v \<Rightarrow> v | None \<Rightarrow> first_present item ks d)"

text \<open>
  What the chain \<^verbatim>\<open>item.get(k1) or item.get(k2) or ... or default\<close> computes: the value
  of the first key whose value is truthy, or the default.
\<close>

fun first_truthy :: "(string \<times> py) list \<Rightarrow> string list \<Rightarrow> py \<Rightarrow> py" where
  "first_truthy item [] d = d"
| "first_truthy item (k # ks) d =
     (if truthy (dict_get item k) then dict_get item k else first_truthy item ks d)"

text \<open>
  The shape of a detection: a dictionary with exactly the keys \<open>label\<close>,
  \<open>confidence\<close> and \<open>bbox\<close>, holding a string, a float and a list of four floats.
\<close>

definition detection_shape :: "py \<Rightarrow> bool" where
  "detection_shape d =
     (case d of
        PDict kv \<Rightarrow>
          map fst kv = [''label'', ''confidence'', ''bbox''] \<and>
          (case dict_get kv ''label'' of PStr s \<Rightarrow> True | _ \<Rightarrow> False) \<and>
          (case dict_get kv ''confidence'' of PFloat c \<Rightarrow> True | _ \<Rightarrow> False) \<and>
          (case dict_get kv ''bbox'' of
             PList xs \<Rightarrow> length xs = 4 \<and> list_all (\<lambda>v. case v of PFloat r \<Rightarrow> True | _ \<Rightarrow> False) xs
           | _ \<Rightarrow> False)
      | _ \<Rightarrow> False)"

definition is_dict :: "py \<Rightarrow> bool" where
  "is_dict v = (case v of PDict kv \<Rightarrow> True | _ \<Rightarrow> False)"

section \<open>A concrete remote service\<close>

text \<open>
  A remote service for evaluation: the submit request is answered with a given status,
  the \<open>k\<close>-th poll with the \<open>k\<close>-th element of a list of statuses and bodies, and every
  later poll with the status 202. The asset negotiation is answered with an upload
  address and one asset identifier, a UUID in canonical form.
\<close>

definition demo_asset_id :: string where
  "demo_asset_id = ''12345678-1234-5678-1234-567812345678''"

definition demo_response :: "int \<Rightarrow> bytes \<Rightarrow> response" where
  "demo_response status body =
     \<lparr>status_code = status, content = body,
      headers_get = (\<lambda>name. if name = ''NVCF-REQID'' then Some ''r1'' else None)\<rparr>"

definition demo_remote :: "int \<Rightarrow> (int \<times> bytes) list \<Rightarrow> remote" where
  "demo_remote submit_status poll_responses =
     \<lparr>auth_value = ''key'',
      http_post = (\<lambda>url headers payload.
         if url = ASSETS_URL then demo_response 200 ''{}'' else demo_response submit_status ''zip0''),
      http_put = (\<lambda>url data headers. demo_response 200 []),
      http_get = (\<lambda>url headers k.
         if k < length poll_responses
         then demo_response (fst (poll_responses ! k)) (snd (poll_responses ! k))
         else demo_response 202 []),
      response_json = (\<lambda>r. Inr (PDict [(''uploadUrl'', PStr ''https://s3''),
                                       (''assetId'', PStr demo_asset_id)])),
      uuid_canonical = (\<lambda>v. if v = PStr demo_asset_id then Inr demo_asset_id else Inl ValueError)\<rparr>"

section \<open>A concrete archive\<close>

text \<open>
  An archive for evaluation, given by its entries in listing order, and an unpacking
  library that opens every byte string as that archive and decodes the listed documents.
\<close>

definition demo_archive :: "(string \<times> bytes) list \<Rightarrow> archive" where
  "demo_archive entries =
     \<lparr>namelist = map fst entries,
      zf_read = (\<lambda>name. case map_of entries name of None \<Rightarrow> Inl KeyError | Some b \<Rightarrow> Inr b)\<rparr>"

definition demo_unpacking :: "(string \<times> bytes) list \<Rightarrow> (bytes \<times> py) list \<Rightarrow> unpacking" where
  "demo_unpacking entries documents =
     \<lparr>open_zip = (\<lambda>b. Inr (demo_archive entries)),
      json_loads = (\<lambda>raw. case map_of documents raw of None \<Rightarrow> Inl ValueError | Some d \<Rightarrow> Inr d)\<rparr>"

section \<open>Notions used in the statements about the unpacker\<close>

text \<open>The content of an entry, empty when the read fails.\<close>

definition entry_content :: "archive \<Rightarrow> string \<Rightarrow> bytes" where
  "entry_content zf name = (case zf_read zf name of Inl e \<Rightarrow> [] | Inr b \<Rightarrow> b)"

text \<open>The first byte string of a list that is not empty, or the empty one.\<close>

fun first_nonempty :: "bytes list \<Rightarrow> bytes" where
  "first_nonempty [] = []"
| "first_nonempty (b # bs) = (if b \<noteq> [] then b else first_nonempty bs)"

text \<open>
  Stated from the specification, for comparison with \<open>parse_zip\<close>: the preview is the
  content of the first entry in listing order whose name has an image suffix.
\<close>

definition claimed_preview :: "archive \<Rightarrow> bytes" where
  "claimed_preview zf =
     (case filter is_image_name (namelist zf) of [] \<Rightarrow> [] | name # names \<Rightarrow> entry_content zf name)"

text \<open>
  The detections one entry of the archive adds, following the body of the loop: none
  for an entry that is not a JSON document or that cannot be read or decoded.
\<close>

definition entry_detections :: "unpacking \<Rightarrow> builtins \<Rightarrow> archive \<Rightarrow> int \<Rightarrow> int \<Rightarrow> string \<Rightarrow> pyerr + py list" where
  "entry_detections U B zf width height name =
     (if is_json_name name then
        (case bind_err (zf_read zf name) (json_loads U) of
           Inl e \<Rightarrow> Inr []
         | Inr data \<Rightarrow> extract_detections B data width height)
      else Inr [])"

text \<open>
  A well-formed record: a mapping whose \<open>confidence\<close> and \<open>score\<close> are numbers that
  convert to a float when present, and whose box (the first truthy value of \<open>bbox\<close>,
  \<open>box\<close>, \<open>bounding_box\<close>, else the empty mapping) is a mapping of such numbers.
  An integer too large for a float is excluded: \<^verbatim>\<open>float\<close> raises OverflowError on it.
\<close>

definition well_formed_record :: "py \<Rightarrow> bool" where
  "well_formed_record r =
     (case r of
        PDict kv \<Rightarrow>
          (dict_get kv ''confidence'' = PNone \<or> numeric (dict_get kv ''confidence'')) \<and>
          (dict_get kv ''score'' = PNone \<or> numeric (dict_get kv ''score'')) \<and>
          (case py_or (py_or (py_or (dict_get kv ''bbox'') (dict_get kv ''box''))
                  (dict_get kv ''bounding_box'')) (PDict []) of
             PDict box \<Rightarrow> list_all (\<lambda>p. numeric (snd p)) box
           | _ \<Rightarrow> False)
      | _ \<Rightarrow> False)"

section \<open>A concrete imaging library\<close>


section \<open>Properties\<close>

lemma bind_err_simps [simp]:
  "bind_err (Inl e) f = Inl e"
  "bind_err (Inr x) f = f x"
  by (simp_all add: bind_err_def)

lemma bind_err_Inr_iff: "bind_err m f = Inr y \<longleftrightarrow> (\<exists>x. m = Inr x \<and> f x = Inr y)"
  by (cases m) auto

subsection \<open>Evaluation of the concrete instances\<close>

lemmas get_defs = dict_get_def dict_get_default_def

lemmas float_defs = int_to_float_def float_sub_def

lemma float_int_bound_large: "2 ^ 53 < FLOAT_INT_BOUND"
  by (simp add: FLOAT_INT_BOUND_def)

lemma small_int_in_range: "\<bar>i\<bar> \<le> 2 ^ 53 \<Longrightarrow> \<bar>i\<bar> < FLOAT_INT_BOUND"
  using float_int_bound_large by simp

lemma numeric_zero: "numeric (PInt 0)"
  using float_int_bound_large by simp

lemmas demo_remote_simps = demo_remote_def demo_response_def submit_response_def poll_response_def
  NVAI_URL_def ASSETS_URL_def

lemmas demo_unpack_simps = demo_unpacking_def demo_archive_def parse_zip_def is_image_name_def
  is_json_name_def endswith_def lower_def char_lower_def

subsection \<open>Geometry normalizer\<close>

text \<open>
  C1. For every bounding-box record whose four fields are read as \<open>x\<close>, \<open>y\<close>, \<open>w\<close>,
  \<open>h\<close> and every image size, \<^verbatim>\<open>_to_pixels\<close> multiplies position and extent of an
  axis by the image dimension exactly when both lie in the unit interval, leaves both
  unchanged otherwise, and returns \<open>[x, y, x + w, y + h]\<close> without clamping. For the
  image 800 x 600 and the record \<open>{x: 0.1, y: 0.1, width: 0.2, height: 0.2}\<close> the
  result is \<open>[80, 60, 240, 180]\<close>.
\<close>

theorem C1_to_pixels_scaling:
  "(box_fields B box = Inr (x, y, w, h) \<longrightarrow>
      to_pixels B (PDict box) W H =
        Inr [if 0 \<le> x \<and> x \<le> 1 \<and> 0 \<le> w \<and> w \<le> 1 then x * real_of_int W else x,
             if 0 \<le> y \<and> y \<le> 1 \<and> 0 \<le> h \<and> h \<le> 1 then y * real_of_int H else y,
             if 0 \<le> x \<and> x \<le> 1 \<and> 0 \<le> w \<and> w \<le> 1
               then x * real_of_int W + w * real_of_int W else x + w,
             if 0 \<le> y \<and> y \<le> 1 \<and> 0 \<le> h \<and> h \<le> 1
               then y * real_of_int H + h * real_of_int H else y + h]) \<and>
   to_pixels B (PDict [(''x'', PFloat 0.1), (''y'', PFloat 0.1),
                       (''width'', PFloat 0.2), (''height'', PFloat 0.2)]) 800 600 =
     Inr [80, 60, 240, 180]"
  by (simp add: to_pixels_def box_fields_def float_defs dict_get_def dict_get_default_def py_or_def)

text \<open>
  The theorem at a record whose horizontal axis is normalized and whose vertical axis
  is in pixels: only the horizontal axis is scaled.
\<close>

theorem C1_to_pixels_scaling_witness:
  "box_fields demo_builtins [(''x'', PFloat 0.5), (''y'', PInt 30),
                             (''width'', PFloat 0.25), (''height'', PInt 40)] =
     Inr (1 / 2, 30, 1 / 4, 40) \<and>
   to_pixels demo_builtins (PDict [(''x'', PFloat 0.5), (''y'', PInt 30),
                                   (''width'', PFloat 0.25), (''height'', PInt 40)]) 800 600 =
     Inr [400, 30, 600, 70]"
proof -
  have fields: "box_fields demo_builtins [(''x'', PFloat 0.5), (''y'', PInt 30),
                  (''width'', PFloat 0.25), (''height'', PInt 40)] = Inr (1 / 2, 30, 1 / 4, 40)"
    by (simp add: box_fields_def float_defs dict_get_def dict_get_default_def py_or_def)
  from C1_to_pixels_scaling [of demo_builtins _ "1 / 2" 30 "1 / 4" 40 800 600] fields
  show ?thesis by simp
qed

subsection \<open>Reading the extent\<close>

lemma numeric_float: "numeric v \<Longrightarrow> \<exists>r. py_float B v = Inr r"
  by (cases v) (simp_all add: int_to_float_def)

lemma numeric_sub: "numeric v \<Longrightarrow> \<exists>r. py_sub_float B v x = Inr r"
  by (cases v) (simp_all add: int_to_float_def)

lemma dict_get_numeric:
  assumes "\<forall>p \<in> set box. numeric (snd p)"
  shows "dict_get box k = PNone \<or> numeric (dict_get box k)"
proof (cases "map_of box k")
  case None
  then show ?thesis by (simp add: get_defs)
next
  case (Some v)
  then have "(k, v) \<in> set box" by (rule map_of_SomeD)
  with assms have "numeric v" by force
  with Some show ?thesis by (simp add: get_defs)
qed

lemma dict_get_default_numeric:
  assumes "\<forall>p \<in> set box. numeric (snd p)" and "numeric d"
  shows "numeric (dict_get_default box k d)"
proof (cases "map_of box k")
  case None
  with assms(2) show ?thesis by (simp add: get_defs)
next
  case (Some v)
  then have "(k, v) \<in> set box" by (rule map_of_SomeD)
  with assms(1) have "numeric v" by force
  with Some show ?thesis by (simp add: get_defs)
qed

lemma or_chain_numeric:
  assumes "a = PNone \<or> numeric a" and "b = PNone \<or> numeric b"
  shows "numeric (py_or (py_or a b) (PInt 0))"
  using assms numeric_zero by (auto simp: py_or_def)

lemma truthy_numeric:
  assumes "a = PNone \<or> numeric a" and "truthy a"
  shows "numeric a"
  using assms by auto

lemma box_fields_numeric:
  assumes num: "\<forall>p \<in> set box. numeric (snd p)"
  shows "\<exists>f. box_fields B box = Inr f"
proof -
  note g = dict_get_numeric [OF num]
  obtain x where x: "py_float B (py_or (py_or (dict_get box ''x'') (dict_get box ''xmin'')) (PInt 0)) = Inr x"
    using numeric_float [OF or_chain_numeric [OF g g]] by blast
  obtain y where y: "py_float B (py_or (py_or (dict_get box ''y'') (dict_get box ''ymin'')) (PInt 0)) = Inr y"
    using numeric_float [OF or_chain_numeric [OF g g]] by blast
  have "\<exists>w. (if truthy (dict_get box ''width'') then py_float B (dict_get box ''width'')
               else bind_err (py_sub_float B (dict_get_default box ''xmax'' (PInt 0)) x)
                      (\<lambda>d. py_float B (PFloat d))) = Inr w"
  proof (cases "truthy (dict_get box ''width'')")
    case True
    then show ?thesis using numeric_float [OF truthy_numeric [OF g True]] by simp
  next
    case False
    obtain d where "py_sub_float B (dict_get_default box ''xmax'' (PInt 0)) x = Inr d"
      using numeric_sub [OF dict_get_default_numeric [OF num numeric_zero]] by blast
    with False show ?thesis by simp
  qed
  then obtain w where w: "(if truthy (dict_get box ''width'') then py_float B (dict_get box ''width'')
               else bind_err (py_sub_float B (dict_get_default box ''xmax'' (PInt 0)) x)
                      (\<lambda>d. py_float B (PFloat d))) = Inr w" ..
  have "\<exists>h. (if truthy (dict_get box ''height'') then py_float B (dict_get box ''height'')
               else bind_err (py_sub_float B (dict_get_default box ''ymax'' (PInt 0)) y)
                      (\<lambda>d. py_float B (PFloat d))) = Inr h"
  proof (cases "truthy (dict_get box ''height'')")
    case True
    then show ?thesis using numeric_float [OF truthy_numeric [OF g True]] by simp
  next
    case False
    obtain d where "py_sub_float B (dict_get_default box ''ymax'' (PInt 0)) y = Inr d"
      using numeric_sub [OF dict_get_default_numeric [OF num numeric_zero]] by blast
    with False show ?thesis by simp
  qed
  then obtain h where h: "(if truthy (dict_get box ''height'') then py_float B (dict_get box ''height'')
               else bind_err (py_sub_float B (dict_get_default box ''ymax'' (PInt 0)) y)
                      (\<lambda>d. py_float B (PFloat d))) = Inr h" ..
  show ?thesis
    unfolding box_fields_def using x y w h by simp
qed

lemma to_pixels_length: "to_pixels B box W H = Inr r \<Longrightarrow> length r = 4"
  by (auto simp: to_pixels_def bind_err_Inr_iff Let_def split: py.splits prod.splits if_splits)

lemma to_pixels_of_fields:
  "box_fields B box = Inr f \<Longrightarrow> \<exists>r. to_pixels B (PDict box) W H = Inr r"
  by (cases f) (simp add: to_pixels_def Let_def split: prod.splits)

lemma int_to_float_overflow: "FLOAT_INT_BOUND \<le> \<bar>i\<bar> \<Longrightarrow> int_to_float B i = Inl OverflowError"
  using float_int_bound_large by (simp add: int_to_float_def)

text \<open>
  C6, amended. For every bounding-box record, \<^verbatim>\<open>_to_pixels\<close> reads the extent as
  \<open>width\<close> when that value is truthy (present, not null and not zero), else as
  \<open>xmax - x\<close> with a missing \<open>xmax\<close> read as 0, so the extent is \<open>- x\<close> when both are
  missing; \<open>height\<close>, \<open>ymax\<close> and \<open>y\<close> alike. The empty record gives
  \<open>[0, 0, 0, 0]\<close>. A record whose present fields are all booleans, floats or integers
  of magnitude below \<open>2 ^ 1024 - 2 ^ 970\<close> never raises; an integer \<open>x\<close> or \<open>xmax\<close>
  of that magnitude or more raises OverflowError.
\<close>

theorem C6_extent_reading:
  "(box_fields B box = Inr (x, y, w, h) \<longrightarrow>
      (if truthy (dict_get box ''width'') then py_float B (dict_get box ''width'')
       else py_sub_float B (dict_get_default box ''xmax'' (PInt 0)) x) = Inr w \<and>
      (if truthy (dict_get box ''height'') then py_float B (dict_get box ''height'')
       else py_sub_float B (dict_get_default box ''ymax'' (PInt 0)) y) = Inr h) \<and>
   to_pixels B (PDict []) W H = Inr [0, 0, 0, 0] \<and>
   ((\<forall>p \<in> set box. numeric (snd p)) \<longrightarrow> (\<exists>r. to_pixels B (PDict box) W H = Inr r \<and> length r = 4)) \<and>
   (FLOAT_INT_BOUND \<le> \<bar>i\<bar> \<longrightarrow>
      to_pixels B (PDict [(''x'', PInt i)]) W H = Inl OverflowError \<and>
      to_pixels B (PDict [(''xmax'', PInt i)]) W H = Inl OverflowError)"
proof (intro conjI impI)
  assume f: "box_fields B box = Inr (x, y, w, h)"
  then show "(if truthy (dict_get box ''width'') then py_float B (dict_get box ''width'')
       else py_sub_float B (dict_get_default box ''xmax'' (PInt 0)) x) = Inr w"
    by (auto simp: box_fields_def bind_err_Inr_iff split: if_splits)
  from f show "(if truthy (dict_get box ''height'') then py_float B (dict_get box ''height'')
       else py_sub_float B (dict_get_default box ''ymax'' (PInt 0)) y) = Inr h"
    by (auto simp: box_fields_def bind_err_Inr_iff split: if_splits)
next
  show "to_pixels B (PDict []) W H = Inr [0, 0, 0, 0]"
    by (simp add: to_pixels_def box_fields_def float_defs get_defs py_or_def)
next
  assume "\<forall>p \<in> set box. numeric (snd p)"
  then obtain f where "box_fields B box = Inr f" using box_fields_numeric by blast
  then obtain r where r: "to_pixels B (PDict box) W H = Inr r" using to_pixels_of_fields by blast
  with to_pixels_length show "\<exists>r. to_pixels B (PDict box) W H = Inr r \<and> length r = 4" by blast
next
  assume big: "FLOAT_INT_BOUND \<le> \<bar>i\<bar>"
  then have over: "int_to_float B i = Inl OverflowError" by (rule int_to_float_overflow)
  from big float_int_bound_large have nz: "i \<noteq> 0" by auto
  show "to_pixels B (PDict [(''x'', PInt i)]) W H = Inl OverflowError"
    using over nz by (simp add: to_pixels_def box_fields_def get_defs py_or_def)
  show "to_pixels B (PDict [(''xmax'', PInt i)]) W H = Inl OverflowError"
    using over nz by (simp add: to_pixels_def box_fields_def get_defs py_or_def int_to_float_def [of B 0])
qed

text \<open>
  The claim as stated fails at the record \<open>{x: 50}\<close>: it has neither \<open>width\<close> nor
  \<open>xmax\<close>, the stated extent is 0, the extent read is \<open>- 50\<close> and the rectangle is
  \<open>[50, 0, 0, 0]\<close>.
\<close>

theorem C6_extent_counterexample:
  "box_fields demo_builtins [(''x'', PInt 50)] = Inr (50, 0, - 50, 0) \<and>
   claimed_extent demo_builtins [(''x'', PInt 50)] ''width'' ''xmax'' 50 = Inr 0 \<and>
   to_pixels demo_builtins (PDict [(''x'', PInt 50)]) 100 100 = Inr [50, 0, 0, 0]"
  by (simp add: box_fields_def to_pixels_def float_defs claimed_extent_def get_defs py_or_def)

text \<open>
  The theorem at a record with \<open>width\<close> zero and \<open>xmax\<close> present, and at the integer
  \<open>10 ^ 400\<close>.
\<close>

theorem C6_extent_reading_witness:
  "box_fields demo_builtins [(''x'', PInt 10), (''width'', PInt 0), (''xmax'', PInt 70)] = Inr (10, 0, 60, 0) \<and>
   py_sub_float demo_builtins (PInt 70) 10 = Inr 60 \<and>
   (\<exists>r. to_pixels demo_builtins (PDict [(''x'', PInt 10), (''width'', PInt 0), (''xmax'', PInt 70)]) 640 480 = Inr r \<and> length r = 4) \<and>
   to_pixels demo_builtins (PDict [(''x'', PInt (10 ^ 400))]) 640 480 = Inl OverflowError \<and>
   to_pixels demo_builtins (PDict [(''xmax'', PInt (10 ^ 400))]) 640 480 = Inl OverflowError"
proof -
  have f: "box_fields demo_builtins [(''x'', PInt 10), (''width'', PInt 0), (''xmax'', PInt 70)] = Inr (10, 0, 60, 0)"
    by (simp add: box_fields_def float_defs get_defs py_or_def demo_builtins_def)
  have n: "\<forall>p \<in> set [(''x'', PInt 10), (''width'', PInt 0), (''xmax'', PInt 70)]. numeric (snd p)"
    by (simp add: FLOAT_INT_BOUND_def)
  have big: "FLOAT_INT_BOUND \<le> \<bar>10 ^ 400\<bar>"
    by (simp add: FLOAT_INT_BOUND_def)
  from C6_extent_reading [of demo_builtins "[(''x'', PInt 10), (''width'', PInt 0), (''xmax'', PInt 70)]"
      10 0 60 0 640 480 "10 ^ 400"] f n big
  show ?thesis by (simp add: get_defs)
qed

subsection \<open>Label and confidence of a detection\<close>

lemma first_truthy_present:
  "\<forall>k \<in> set ks. \<forall>v. map_of item k = Some v \<longrightarrow> truthy v \<Longrightarrow>
     first_truthy item ks d = first_present item ks d"
  by (induction ks) (auto simp: get_defs split: option.splits)

text \<open>
  C5, amended. For every detection record that \<^verbatim>\<open>_extract_detections\<close> converts
  without raising, the label is the string conversion of the value of the first key among
  \<open>label\<close>, \<open>class\<close>, \<open>text\<close> whose value is truthy (present, not null, not empty,
  not zero), or \<open>object\<close> when there is none, and the confidence is the float
  conversion of the value of the first key among \<open>confidence\<close>, \<open>score\<close> whose value
  is truthy, or of 0. Where every present value of the keys is truthy, this is the value
  of the first present key.
\<close>

theorem C5_label_confidence:
  "(detection_of B item W H = Inr d \<longrightarrow>
      (\<exists>c bbox.
         py_float B (first_truthy item [''confidence'', ''score''] (PInt 0)) = Inr c \<and>
         d = PDict [(''label'', PStr (py_str B (first_truthy item [''label'', ''class'', ''text'']
                                                  (PStr ''object'')))),
                    (''confidence'', PFloat c),
                    (''bbox'', bbox)])) \<and>
   ((\<forall>k \<in> set ks. \<forall>v. map_of item k = Some v \<longrightarrow> truthy v) \<longrightarrow>
      first_truthy item ks dflt = first_present item ks dflt)"
proof (intro conjI impI)
  assume "detection_of B item W H = Inr d"
  then show "\<exists>c bbox.
         py_float B (first_truthy item [''confidence'', ''score''] (PInt 0)) = Inr c \<and>
         d = PDict [(''label'', PStr (py_str B (first_truthy item [''label'', ''class'', ''text'']
                                                  (PStr ''object'')))),
                    (''confidence'', PFloat c),
                    (''bbox'', bbox)]"
    by (auto simp: detection_of_def Let_def bind_err_Inr_iff py_or_def)
next
  assume "\<forall>k \<in> set ks. \<forall>v. map_of item k = Some v \<longrightarrow> truthy v"
  then show "first_truthy item ks dflt = first_present item ks dflt"
    by (rule first_truthy_present)
qed


text \<open>
  The claim as stated fails at the record \<open>{confidence: 0, score: 0.9}\<close>: the first
  present key is \<open>confidence\<close> with the value 0, and the confidence of the detection
  is 0.9.
\<close>

theorem C5_label_confidence_counterexample:
  "detection_of demo_builtins [(''confidence'', PInt 0), (''score'', PFloat 0.9)] 100 100 =
     Inr (PDict [(''label'', PStr ''object''), (''confidence'', PFloat 0.9),
                 (''bbox'', PList [PFloat 0, PFloat 0, PFloat 0, PFloat 0])]) \<and>
   py_float demo_builtins
     (first_present [(''confidence'', PInt 0), (''score'', PFloat 0.9)] [''confidence'', ''score''] (PInt 0)) =
     Inr 0"
  by (simp add: detection_of_def to_pixels_def box_fields_def float_defs get_defs py_or_def py_str_def)

text \<open>The theorem at the record \<open>{class: "cat", score: "1.5"}\<close>.\<close>

theorem C5_label_confidence_witness:
  "detection_of demo_builtins [(''class'', PStr ''cat''), (''score'', PStr ''1.5'')] 100 100 =
     Inr (PDict [(''label'', PStr ''cat''), (''confidence'', PFloat 1.5),
                 (''bbox'', PList [PFloat 0, PFloat 0, PFloat 0, PFloat 0])]) \<and>
   py_float demo_builtins (first_truthy [(''class'', PStr ''cat''), (''score'', PStr ''1.5'')]
      [''confidence'', ''score''] (PInt 0)) = Inr 1.5 \<and>
   py_str demo_builtins (first_truthy [(''class'', PStr ''cat''), (''score'', PStr ''1.5'')]
      [''label'', ''class'', ''text''] (PStr ''object'')) = ''cat'' \<and>
   first_truthy [(''class'', PStr ''cat''), (''score'', PStr ''1.5'')] [''label'', ''class'', ''text'']
      (PStr ''object'') =
     first_present [(''class'', PStr ''cat''), (''score'', PStr ''1.5'')] [''label'', ''class'', ''text'']
      (PStr ''object'')"
proof -
  have d: "detection_of demo_builtins [(''class'', PStr ''cat''), (''score'', PStr ''1.5'')] 100 100 =
     Inr (PDict [(''label'', PStr ''cat''), (''confidence'', PFloat 1.5),
                 (''bbox'', PList [PFloat 0, PFloat 0, PFloat 0, PFloat 0])])"
    by (simp add: detection_of_def to_pixels_def box_fields_def float_defs get_defs py_or_def py_str_def
        demo_builtins_def)
  have t: "\<forall>k \<in> set [''label'', ''class'', ''text''].
             \<forall>v. map_of [(''class'', PStr ''cat''), (''score'', PStr ''1.5'')] k = Some v \<longrightarrow> truthy v"
    by simp
  from C5_label_confidence [of demo_builtins "[(''class'', PStr ''cat''), (''score'', PStr ''1.5'')]"
       100 100 _ "[''label'', ''class'', ''text'']" "PStr ''object''"] d t
  show ?thesis by (simp add: get_defs py_str_def demo_builtins_def)
qed

subsection \<open>Shape of the detections\<close>

lemma detection_of_shape:
  assumes "detection_of B item W H = Inr d"
  shows "detection_shape d"
proof -
  from assms obtain bbox c where bbox: "to_pixels B (py_or (py_or (py_or (dict_get item ''bbox'') (dict_get item ''box''))
                          (dict_get item ''bounding_box'')) (PDict [])) W H = Inr bbox"
    and d: "d = PDict [(''label'', PStr (py_str B (py_or (py_or (py_or (dict_get item ''label'') (dict_get item ''class''))
                          (dict_get item ''text'')) (PStr ''object'')))),
                        (''confidence'', PFloat c),
                        (''bbox'', PList (map PFloat bbox))]"
    by (auto simp: detection_of_def Let_def bind_err_Inr_iff)
  from bbox have "length bbox = 4" by (rule to_pixels_length)
  then show ?thesis
    by (simp add: d detection_shape_def get_defs list_all_iff)
qed

lemma detections_loop_shape:
  "detections_loop B W H items acc = Inr ds \<Longrightarrow> list_all detection_shape acc \<Longrightarrow>
     list_all detection_shape ds \<and> length ds = length acc + length (filter is_dict items)"
proof (induction items arbitrary: acc)
  case Nil
  then show ?case by simp
next
  case (Cons item items)
  show ?case
  proof (cases item)
    case (PDict kv)
    with Cons.prems(1) obtain d where d: "detection_of B kv W H = Inr d"
      and rest: "detections_loop B W H items (acc @ [d]) = Inr ds"
      by (auto simp: bind_err_Inr_iff)
    from d have "detection_shape d" by (rule detection_of_shape)
    with Cons.prems(2) have "list_all detection_shape (acc @ [d])" by simp
    from Cons.IH [OF rest this] PDict show ?thesis by (simp add: is_dict_def)
  qed (use Cons in \<open>simp_all add: is_dict_def\<close>)
qed

text \<open>
  C8. Every detection that \<^verbatim>\<open>_extract_detections\<close> returns has its three fields
  populated: the label is a string, the confidence a float and the box a list of exactly
  four floats; there is one detection for every record of the input that is a mapping.
  The sparsest record, the empty mapping, gives the label \<open>object\<close>, the confidence 0
  and the box \<open>[0, 0, 0, 0]\<close>.
\<close>

theorem C8_detection_fields:
  "(extract_detections B data W H = Inr ds \<longrightarrow>
      list_all detection_shape ds \<and> length ds = length (filter is_dict (items_of data))) \<and>
   extract_detections B (PList [PDict []]) W H =
     Inr [PDict [(''label'', PStr ''object''), (''confidence'', PFloat 0),
                 (''bbox'', PList [PFloat 0, PFloat 0, PFloat 0, PFloat 0])]]"
proof (rule conjI, rule impI)
  assume "extract_detections B data W H = Inr ds"
  then have "detections_loop B W H (items_of data) [] = Inr ds"
    by (simp add: extract_detections_def)
  from detections_loop_shape [OF this]
  show "list_all detection_shape ds \<and> length ds = length (filter is_dict (items_of data))"
    by simp
next
  show "extract_detections B (PList [PDict []]) W H =
     Inr [PDict [(''label'', PStr ''object''), (''confidence'', PFloat 0),
                 (''bbox'', PList [PFloat 0, PFloat 0, PFloat 0, PFloat 0])]]"
    by (simp add: extract_detections_def items_of_def detection_of_def to_pixels_def
        box_fields_def float_defs get_defs py_or_def py_str_def)
qed


text \<open>The theorem at a document with two mapping records and one string among them.\<close>

theorem C8_detection_fields_witness:
  "extract_detections demo_builtins
     (PDict [(''objects'', PList [PDict [(''text'', PInt 7)], PStr ''x'',
                                   PDict [(''box'', PDict [(''xmin'', PInt 5), (''xmax'', PInt 9)])]])]) 10 10 =
     Inr [PDict [(''label'', PStr ''?''), (''confidence'', PFloat 0),
                 (''bbox'', PList [PFloat 0, PFloat 0, PFloat 0, PFloat 0])],
          PDict [(''label'', PStr ''object''), (''confidence'', PFloat 0),
                 (''bbox'', PList [PFloat 5, PFloat 0, PFloat 9, PFloat 0])]] \<and>
   list_all detection_shape
     [PDict [(''label'', PStr ''?''), (''confidence'', PFloat 0),
             (''bbox'', PList [PFloat 0, PFloat 0, PFloat 0, PFloat 0])],
      PDict [(''label'', PStr ''object''), (''confidence'', PFloat 0),
             (''bbox'', PList [PFloat 5, PFloat 0, PFloat 9, PFloat 0])]] \<and>
   length (filter is_dict (items_of
     (PDict [(''objects'', PList [PDict [(''text'', PInt 7)], PStr ''x'',
                                   PDict [(''box'', PDict [(''xmin'', PInt 5), (''xmax'', PInt 9)])]])]))) = 2"
proof -
  let ?data = "PDict [(''objects'', PList [PDict [(''text'', PInt 7)], PStr ''x'',
                 PDict [(''box'', PDict [(''xmin'', PInt 5), (''xmax'', PInt 9)])]])]"
  let ?ds = "[PDict [(''label'', PStr ''?''), (''confidence'', PFloat 0),
                     (''bbox'', PList [PFloat 0, PFloat 0, PFloat 0, PFloat 0])],
              PDict [(''label'', PStr ''object''), (''confidence'', PFloat 0),
                     (''bbox'', PList [PFloat 5, PFloat 0, PFloat 9, PFloat 0])]]"
  have e: "extract_detections demo_builtins ?data 10 10 = Inr ?ds"
    by (simp add: extract_detections_def items_of_def detection_of_def to_pixels_def
        box_fields_def float_defs get_defs py_or_def py_str_def demo_builtins_def)
  from C8_detection_fields [of demo_builtins ?data 10 10 ?ds] e
  show ?thesis by simp
qed

subsection \<open>Detection requester\<close>

text \<open>The equation of the loop is unfolded by hand, one iteration at a time.\<close>

declare poll_loop.simps [simp del]

lemma poll_loop_pending:
  "(\<forall>j<m. status_code (http_get R u h (n + j)) = 202) \<Longrightarrow> int m \<le> retries \<Longrightarrow>
     poll_loop R u h retries n = poll_loop R u h (retries - int m) (n + m)"
proof (induction m arbitrary: retries n)
  case 0
  show ?case by simp
next
  case (Suc m)
  from Suc.prems(1) have first: "status_code (http_get R u h n) = 202"
    by (metis add.right_neutral zero_less_Suc)
  from Suc.prems(1) have rest: "\<forall>j<m. status_code (http_get R u h (Suc n + j)) = 202"
    by (metis Suc_less_eq add_Suc_shift)
  from Suc.prems(2) have pos: "retries > 0" and le: "int m \<le> retries - 1" by simp_all
  have "poll_loop R u h retries n = poll_loop R u h (retries - 1) (Suc n)"
    using first pos by (subst poll_loop.simps) (simp add: Let_def)
  also have "\<dots> = poll_loop R u h (retries - 1 - int m) (Suc n + m)"
    using Suc.IH [OF rest le] .
  finally show ?case by (simp add: algebra_simps)
qed

lemma poll_loop_bound:
  "snd (snd (poll_loop R u h retries n)) \<le> n + nat retries"
proof (induction R u h retries n rule: poll_loop.induct)
  case (1 R u h retries n)
  show ?case
  proof (cases "retries > 0 \<and> status_code (http_get R u h n) \<noteq> 200 \<and> status_code (http_get R u h n) = 202")
    case True
    then have "snd (snd (poll_loop R u h (retries - 1) (Suc n))) \<le> Suc n + nat (retries - 1)"
      using "1.IH" by simp
    moreover have "poll_loop R u h retries n = poll_loop R u h (retries - 1) (Suc n)"
      using True by (subst poll_loop.simps) (simp add: Let_def)
    moreover have "Suc n + nat (retries - 1) = n + nat retries"
      using True by linarith
    ultimately show ?thesis by simp
  next
    case False
    then show ?thesis by (subst poll_loop.simps) (auto simp: Let_def)
  qed
qed

text \<open>
  C10. Whatever the remote service answers, \<^verbatim>\<open>_request_zip\<close> issues at most
  \<^verbatim>\<open>MAX_RETRIES\<close> = 5 polls; the loop started with any budget issues at most that many.
  The loop is a total function (its termination is proved with its definition), so
  \<^verbatim>\<open>_request_zip\<close> returns or raises on every input.
\<close>

theorem C10_polls_bounded:
  "snd (snd (request_zip_run R asset_id prompt_text content_type)) \<le> 5 \<and>
   snd (snd (poll_loop R url hdrs MAX_RETRIES 0)) \<le> 5 \<and>
   snd (snd (poll_loop R url hdrs retries polls)) \<le> polls + nat retries"
proof -
  have a: "snd (snd (poll_loop R u h MAX_RETRIES 0)) \<le> 5" for u h
    using poll_loop_bound [of R u h MAX_RETRIES 0] by (simp add: MAX_RETRIES_def)
  have "snd (snd (request_zip_run R asset_id prompt_text content_type)) \<le> 5"
    using a by (simp add: request_zip_run_def Let_def split: prod.splits) (metis snd_conv)
  with a poll_loop_bound show ?thesis by blast
qed

lemma request_zip_run_pending:
  assumes "status_code (submit_response R a p c) = 202"
  shows "request_zip_run R a p c =
     (case poll_loop R (NVAI_POLLING_URL @
          (case headers_get (submit_response R a p c) ''NVCF-REQID'' of None \<Rightarrow> [] | Some v \<Rightarrow> v))
        (poll_headers R) MAX_RETRIES 0 of
        (body, retries, polls) \<Rightarrow> (Inr body, retries, polls))"
  using assms by (simp add: request_zip_run_def submit_response_def Let_def)

text \<open>
  C3. With the retry budget 5: when the submit status is 202 and the polls answer 202,
  202, 200, \<^verbatim>\<open>_request_zip\<close> returns the body of the third poll, having issued three
  polls and consumed two retries; when the submit status is 202 and the five polls of
  the budget all answer 202, it returns empty bytes with the budget at 0.
\<close>

theorem C3_polling_scenarios:
  "(status_code (submit_response R a p c) = 202 \<and>
    status_code (poll_response R a p c 0) = 202 \<and>
    status_code (poll_response R a p c 1) = 202 \<and>
    status_code (poll_response R a p c 2) = 200 \<longrightarrow>
      request_zip R a p c = Inr (content (poll_response R a p c 2)) \<and>
      request_zip_run R a p c = (Inr (content (poll_response R a p c 2)), MAX_RETRIES - 2, 3)) \<and>
   (status_code (submit_response R a p c) = 202 \<and>
    (\<forall>k<5. status_code (poll_response R a p c k) = 202) \<longrightarrow>
      request_zip R a p c = Inr [] \<and>
      request_zip_run R a p c = (Inr [], 0, 5)) \<and>
   MAX_RETRIES = 5"
proof -
  define u where "u = NVAI_POLLING_URL @
     (case headers_get (submit_response R a p c) ''NVCF-REQID'' of None \<Rightarrow> [] | Some v \<Rightarrow> v)"
  have poll: "poll_response R a p c k = http_get R u (poll_headers R) k" for k
    by (simp add: poll_response_def u_def)
  have first: "request_zip_run R a p c = (Inr (content (poll_response R a p c 2)), MAX_RETRIES - 2, 3)"
    if sub: "status_code (submit_response R a p c) = 202"
      and p0: "status_code (poll_response R a p c 0) = 202"
      and p1: "status_code (poll_response R a p c 1) = 202"
      and p2: "status_code (poll_response R a p c 2) = 200"
  proof -
    have "\<forall>j<2. status_code (http_get R u (poll_headers R) (0 + j)) = 202"
      using p0 p1 by (auto simp: poll less_Suc_eq numeral_2_eq_2)
    then have "poll_loop R u (poll_headers R) 5 0 = poll_loop R u (poll_headers R) (5 - int 2) (0 + 2)"
      by (rule poll_loop_pending) simp
    then have "poll_loop R u (poll_headers R) 5 0 = poll_loop R u (poll_headers R) 3 2"
      by (simp add: numeral_2_eq_2)
    also have "poll_loop R u (poll_headers R) 3 2 = (content (http_get R u (poll_headers R) 2), 3, 3)"
      using p2 by (subst poll_loop.simps) (simp add: poll Let_def)
    finally show ?thesis
      using request_zip_run_pending [OF sub] by (simp add: u_def [symmetric] MAX_RETRIES_def poll)
  qed
  have second: "request_zip_run R a p c = (Inr [], 0, 5)"
    if sub: "status_code (submit_response R a p c) = 202"
      and all: "\<forall>k<5. status_code (poll_response R a p c k) = 202"
  proof -
    have "\<forall>j<5. status_code (http_get R u (poll_headers R) (0 + j)) = 202"
      using all by (simp add: poll)
    then have "poll_loop R u (poll_headers R) 5 0 = poll_loop R u (poll_headers R) (5 - int 5) (0 + 5)"
      by (rule poll_loop_pending) simp
    then have "poll_loop R u (poll_headers R) 5 0 = poll_loop R u (poll_headers R) 0 5"
      by (simp add: eval_nat_numeral)
    also have "poll_loop R u (poll_headers R) 0 5 = ([], 0, 5)"
      by (subst poll_loop.simps) simp
    finally show ?thesis
      using request_zip_run_pending [OF sub] by (simp add: u_def [symmetric] MAX_RETRIES_def)
  qed
  show ?thesis
    using first second by (simp add: request_zip_def MAX_RETRIES_def)
qed


text \<open>
  C2, amended. \<^verbatim>\<open>_request_zip\<close> fails hard on submit for the error statuses only:
  when the submit request is answered with a status from 400 to 599, it raises the HTTP
  error of that status and issues no poll; when it is answered with any other status
  besides 200 and 202, it returns the body of the response, raises nothing and issues no
  poll. When the submit status is 202 and, after any number of polls answered 202
  within the budget, a poll is answered with a status other than 200 and 202, it raises
  nothing and returns empty bytes.
\<close>

theorem C2_submit_hard_poll_soft:
  "(400 \<le> status_code (submit_response R a p c) \<and> status_code (submit_response R a p c) < 600 \<longrightarrow>
      request_zip R a p c = Inl (HTTPError (status_code (submit_response R a p c))) \<and>
      snd (snd (request_zip_run R a p c)) = 0) \<and>
   (status_code (submit_response R a p c) \<noteq> 200 \<and> status_code (submit_response R a p c) \<noteq> 202 \<and>
    \<not> (400 \<le> status_code (submit_response R a p c) \<and> status_code (submit_response R a p c) < 600) \<longrightarrow>
      request_zip R a p c = Inr (content (submit_response R a p c)) \<and>
      snd (snd (request_zip_run R a p c)) = 0) \<and>
   (status_code (submit_response R a p c) = 202 \<and> k < 5 \<and>
    (\<forall>j<k. status_code (poll_response R a p c j) = 202) \<and>
    status_code (poll_response R a p c k) \<noteq> 200 \<and>
    status_code (poll_response R a p c k) \<noteq> 202 \<longrightarrow>
      request_zip R a p c = Inr [] \<and>
      snd (snd (request_zip_run R a p c)) = Suc k)"
proof (intro conjI; rule impI)
  assume "400 \<le> status_code (submit_response R a p c) \<and> status_code (submit_response R a p c) < 600"
  then show "request_zip R a p c = Inl (HTTPError (status_code (submit_response R a p c))) \<and>
      snd (snd (request_zip_run R a p c)) = 0"
    by (simp add: request_zip_def request_zip_run_def submit_response_def raise_for_status_def Let_def)
next
  assume "status_code (submit_response R a p c) \<noteq> 200 \<and> status_code (submit_response R a p c) \<noteq> 202 \<and>
    \<not> (400 \<le> status_code (submit_response R a p c) \<and> status_code (submit_response R a p c) < 600)"
  then show "request_zip R a p c = Inr (content (submit_response R a p c)) \<and>
      snd (snd (request_zip_run R a p c)) = 0"
    by (auto simp: request_zip_def request_zip_run_def submit_response_def raise_for_status_def Let_def)
next
  define u where "u = NVAI_POLLING_URL @
     (case headers_get (submit_response R a p c) ''NVCF-REQID'' of None \<Rightarrow> [] | Some v \<Rightarrow> v)"
  have poll: "poll_response R a p c j = http_get R u (poll_headers R) j" for j
    by (simp add: poll_response_def u_def)
  assume h: "status_code (submit_response R a p c) = 202 \<and> k < 5 \<and>
    (\<forall>j<k. status_code (poll_response R a p c j) = 202) \<and>
    status_code (poll_response R a p c k) \<noteq> 200 \<and>
    status_code (poll_response R a p c k) \<noteq> 202"
  then have "\<forall>j<k. status_code (http_get R u (poll_headers R) (0 + j)) = 202"
    by (simp add: poll)
  moreover from h have "int k \<le> 5" by simp
  ultimately have "poll_loop R u (poll_headers R) 5 0 = poll_loop R u (poll_headers R) (5 - int k) (0 + k)"
    by (rule poll_loop_pending)
  also have "\<dots> = ([], 5 - int k, Suc k)"
    using h by (subst poll_loop.simps) (simp add: poll Let_def)
  finally have "request_zip_run R a p c = (Inr [], 5 - int k, Suc k)"
    using h request_zip_run_pending [of R a p c] by (simp add: u_def [symmetric] MAX_RETRIES_def)
  then show "request_zip R a p c = Inr [] \<and> snd (snd (request_zip_run R a p c)) = Suc k"
    by (simp add: request_zip_def)
qed

text \<open>
  The claim as stated fails at the submit status 304: it is not a success status, it is
  neither 200 nor 202, and the body of the response is returned instead of an exception.
\<close>

theorem C2_submit_status_counterexample:
  "status_code (submit_response (demo_remote 304 []) ''asset'' ''cat'' ''image/png'') = 304 \<and>
   request_zip (demo_remote 304 []) ''asset'' ''cat'' ''image/png'' = Inr ''zip0''"
  by (simp add: request_zip_def request_zip_run_def raise_for_status_def demo_remote_simps)

text \<open>
  The theorem at the submit statuses 500 and 304, and at a submit status 202 with the
  polls 202, 503.
\<close>

theorem C2_submit_hard_poll_soft_witness:
  "request_zip (demo_remote 500 []) ''asset'' ''cat'' ''image/png'' = Inl (HTTPError 500) \<and>
   snd (snd (request_zip_run (demo_remote 500 []) ''asset'' ''cat'' ''image/png'')) = 0 \<and>
   request_zip (demo_remote 304 []) ''asset'' ''cat'' ''image/png'' = Inr ''zip0'' \<and>
   snd (snd (request_zip_run (demo_remote 304 []) ''asset'' ''cat'' ''image/png'')) = 0 \<and>
   request_zip (demo_remote 202 [(202, []), (503, ''busy'')]) ''asset'' ''cat'' ''image/png'' = Inr [] \<and>
   snd (snd (request_zip_run (demo_remote 202 [(202, []), (503, ''busy'')]) ''asset'' ''cat'' ''image/png'')) = 2"
proof -
  have hard: "400 \<le> status_code (submit_response (demo_remote 500 []) ''asset'' ''cat'' ''image/png'') \<and>
      status_code (submit_response (demo_remote 500 []) ''asset'' ''cat'' ''image/png'') < 600"
    and st: "status_code (submit_response (demo_remote 500 []) ''asset'' ''cat'' ''image/png'') = 500"
    by (simp_all add: demo_remote_simps)
  let ?s = "submit_response (demo_remote 304 []) ''asset'' ''cat'' ''image/png''"
  have other: "status_code ?s \<noteq> 200 \<and> status_code ?s \<noteq> 202 \<and>
      \<not> (400 \<le> status_code ?s \<and> status_code ?s < 600)"
    and body: "content ?s = ''zip0''"
    by (simp_all add: demo_remote_simps)
  have soft: "status_code (submit_response (demo_remote 202 [(202, []), (503, ''busy'')]) ''asset'' ''cat'' ''image/png'') = 202 \<and>
      (1::nat) < 5 \<and>
      (\<forall>j<1. status_code (poll_response (demo_remote 202 [(202, []), (503, ''busy'')]) ''asset'' ''cat'' ''image/png'' j) = 202) \<and>
      status_code (poll_response (demo_remote 202 [(202, []), (503, ''busy'')]) ''asset'' ''cat'' ''image/png'' 1) \<noteq> 200 \<and>
      status_code (poll_response (demo_remote 202 [(202, []), (503, ''busy'')]) ''asset'' ''cat'' ''image/png'' 1) \<noteq> 202"
    by (simp add: demo_remote_simps)
  note t1 = mp [OF conjunct1 [OF C2_submit_hard_poll_soft
      [of "demo_remote 500 []" "''asset''" "''cat''" "''image/png''" 0]] hard]
  note t2 = mp [OF conjunct1 [OF conjunct2 [OF C2_submit_hard_poll_soft
      [of "demo_remote 304 []" "''asset''" "''cat''" "''image/png''" 0]]] other]
  note t3 = mp [OF conjunct2 [OF conjunct2 [OF C2_submit_hard_poll_soft
      [of "demo_remote 202 [(202, []), (503, ''busy'')]" "''asset''" "''cat''" "''image/png''" 1]]] soft]
  from t1 t2 t3 show ?thesis unfolding st body by (simp add: numeral_2_eq_2)
qed

text \<open>The theorem at the polls 202, 202, 200 and at a service that always answers 202.\<close>

theorem C3_polling_scenarios_witness:
  "request_zip (demo_remote 202 [(202, []), (202, []), (200, ''zip3'')]) ''asset'' ''cat'' ''image/png'' = Inr ''zip3'' \<and>
   request_zip_run (demo_remote 202 [(202, []), (202, []), (200, ''zip3'')]) ''asset'' ''cat'' ''image/png'' =
     (Inr ''zip3'', 3, 3) \<and>
   request_zip (demo_remote 202 []) ''asset'' ''cat'' ''image/png'' = Inr [] \<and>
   request_zip_run (demo_remote 202 []) ''asset'' ''cat'' ''image/png'' = (Inr [], 0, 5)"
proof -
  have one: "status_code (submit_response (demo_remote 202 [(202, []), (202, []), (200, ''zip3'')]) ''asset'' ''cat'' ''image/png'') = 202 \<and>
    status_code (poll_response (demo_remote 202 [(202, []), (202, []), (200, ''zip3'')]) ''asset'' ''cat'' ''image/png'' 0) = 202 \<and>
    status_code (poll_response (demo_remote 202 [(202, []), (202, []), (200, ''zip3'')]) ''asset'' ''cat'' ''image/png'' 1) = 202 \<and>
    status_code (poll_response (demo_remote 202 [(202, []), (202, []), (200, ''zip3'')]) ''asset'' ''cat'' ''image/png'' 2) = 200"
    and body: "content (poll_response (demo_remote 202 [(202, []), (202, []), (200, ''zip3'')]) ''asset'' ''cat'' ''image/png'' 2) = ''zip3''"
    by (simp_all add: demo_remote_simps)
  have two: "status_code (submit_response (demo_remote 202 []) ''asset'' ''cat'' ''image/png'') = 202 \<and>
    (\<forall>k<5. status_code (poll_response (demo_remote 202 []) ''asset'' ''cat'' ''image/png'' k) = 202)"
    by (simp add: demo_remote_simps)
  note t1 = mp [OF conjunct1 [OF C3_polling_scenarios
      [of "demo_remote 202 [(202, []), (202, []), (200, ''zip3'')]" "''asset''" "''cat''" "''image/png''"]] one]
  note t2 = mp [OF conjunct1 [OF conjunct2 [OF C3_polling_scenarios
      [of "demo_remote 202 []" "''asset''" "''cat''" "''image/png''"]]] two]
  have "MAX_RETRIES - 2 = 3" by (simp add: MAX_RETRIES_def)
  with t1 t2 show ?thesis unfolding body by simp
qed

subsection \<open>The embedded preview\<close>

lemma parse_entries_Cons_Inr:
  assumes "parse_entries U B zf W H (name # names) (ds, ann) = Inr r"
  shows "\<exists>a2 new. (if ann = [] \<and> is_image_name name then zf_read zf name else Inr ann) = Inr a2 \<and>
           parse_entries U B zf W H names (ds @ new, a2) = Inr r"
proof -
  from assms obtain a2 where a2: "(if ann = [] \<and> is_image_name name then zf_read zf name else Inr ann) = Inr a2"
    and rest: "(if is_json_name name then
            (case bind_err (zf_read zf name) (json_loads U) of
               Inl _ \<Rightarrow> parse_entries U B zf W H names (ds, a2)
             | Inr data \<Rightarrow>
                 bind_err (extract_detections B data W H) (\<lambda>new.
                   parse_entries U B zf W H names (ds @ new, a2)))
          else parse_entries U B zf W H names (ds, a2)) = Inr r"
    by (auto simp: bind_err_Inr_iff)
  from rest have "\<exists>new. parse_entries U B zf W H names (ds @ new, a2) = Inr r"
  proof (cases "is_json_name name")
    case False
    with rest have "parse_entries U B zf W H names (ds @ [], a2) = Inr r" by simp
    then show ?thesis by blast
  next
    case True
    show ?thesis
    proof (cases "bind_err (zf_read zf name) (json_loads U)")
      case (Inl e)
      with rest True have "parse_entries U B zf W H names (ds @ [], a2) = Inr r" by simp
      then show ?thesis by blast
    next
      case (Inr data)
      with rest True show ?thesis by (auto simp: bind_err_Inr_iff)
    qed
  qed
  with a2 show ?thesis by blast
qed

lemma parse_entries_preview:
  "parse_entries U B zf W H names (ds, ann) = Inr (ds', ann') \<Longrightarrow>
     ann' = (if ann \<noteq> [] then ann
             else first_nonempty (map (entry_content zf) (filter is_image_name names)))"
proof (induction names arbitrary: ds ann)
  case Nil
  then show ?case by simp
next
  case (Cons name names)
  from parse_entries_Cons_Inr [OF Cons.prems] obtain a2 new
    where a2: "(if ann = [] \<and> is_image_name name then zf_read zf name else Inr ann) = Inr a2"
      and rest: "parse_entries U B zf W H names (ds @ new, a2) = Inr (ds', ann')"
    by blast
  from Cons.IH [OF rest]
  have ih: "ann' = (if a2 \<noteq> [] then a2
             else first_nonempty (map (entry_content zf) (filter is_image_name names)))" .
  show ?case
  proof (cases "ann = [] \<and> is_image_name name")
    case True
    with a2 have "entry_content zf name = a2" by (simp add: entry_content_def)
    with True ih show ?thesis by simp
  next
    case False
    with a2 have "a2 = ann" by auto
    with False ih show ?thesis by auto
  qed
qed

text \<open>
  C7, amended. For every archive that \<^verbatim>\<open>_parse_zip\<close> unpacks without raising, the
  preview returned is the content of the first entry in listing order whose name ends,
  case-insensitively, in \<open>.png\<close>, \<open>.jpg\<close>, \<open>.jpeg\<close> or \<open>.webp\<close> and whose content
  is not empty (empty when there is none); matching entries after it are ignored. When
  the first matching entry is not empty, the preview is that entry.
\<close>

theorem C7_preview_first_nonempty:
  "(zip_bytes \<noteq> [] \<and> open_zip U zip_bytes = Inr zf \<and>
    parse_zip U B zip_bytes W H = Inr (ds, preview) \<longrightarrow>
      preview = first_nonempty (map (entry_content zf) (filter is_image_name (namelist zf))) \<and>
      (claimed_preview zf \<noteq> [] \<longrightarrow> preview = claimed_preview zf)) \<and>
   is_image_name name =
     (endswith (lower name) ''.png'' \<or> endswith (lower name) ''.jpg'' \<or>
      endswith (lower name) ''.jpeg'' \<or> endswith (lower name) ''.webp'')"
proof (rule conjI, rule impI)
  assume h: "zip_bytes \<noteq> [] \<and> open_zip U zip_bytes = Inr zf \<and>
    parse_zip U B zip_bytes W H = Inr (ds, preview)"
  then have a: "zip_bytes \<noteq> []" and b: "open_zip U zip_bytes = Inr zf"
    and c: "parse_zip U B zip_bytes W H = Inr (ds, preview)"
    by simp_all
  from c have "parse_entries U B zf W H (namelist zf) ([], []) = Inr (ds, preview)"
    unfolding parse_zip_def using a b by simp
  from parse_entries_preview [OF this]
  have p: "preview = first_nonempty (map (entry_content zf) (filter is_image_name (namelist zf)))"
    by simp
  moreover have "preview = claimed_preview zf" if "claimed_preview zf \<noteq> []"
    using that p by (cases "filter is_image_name (namelist zf)") (simp_all add: claimed_preview_def)
  ultimately show "preview = first_nonempty (map (entry_content zf) (filter is_image_name (namelist zf))) \<and>
      (claimed_preview zf \<noteq> [] \<longrightarrow> preview = claimed_preview zf)"
    by blast
next
  show "is_image_name name =
     (endswith (lower name) ''.png'' \<or> endswith (lower name) ''.jpg'' \<or>
      endswith (lower name) ''.jpeg'' \<or> endswith (lower name) ''.webp'')"
    by (simp add: is_image_name_def)
qed

text \<open>
  The claim as stated fails at the archive with the entries \<open>a.png\<close>, empty, and
  \<open>b.jpg\<close>: the first matching entry is empty and the preview is the content of the
  second.
\<close>

theorem C7_preview_counterexample:
  "parse_zip (demo_unpacking [(''a.png'', []), (''b.jpg'', ''B'')] []) demo_builtins ''PK'' 100 100 =
     Inr ([], ''B'') \<and>
   claimed_preview (demo_archive [(''a.png'', []), (''b.jpg'', ''B'')]) = []"
  by (simp add: demo_unpack_simps entry_content_def claimed_preview_def)

text \<open>The theorem at an archive whose first image entry has an upper-case name.\<close>

theorem C7_preview_first_nonempty_witness:
  "parse_zip (demo_unpacking [(''notes.txt'', ''n''), (''A.PNG'', ''A''), (''b.jpg'', ''B'')] [])
      demo_builtins ''PK'' 100 100 = Inr ([], ''A'') \<and>
   first_nonempty (map (entry_content (demo_archive [(''notes.txt'', ''n''), (''A.PNG'', ''A''), (''b.jpg'', ''B'')]))
      (filter is_image_name (namelist (demo_archive [(''notes.txt'', ''n''), (''A.PNG'', ''A''), (''b.jpg'', ''B'')])))) = ''A'' \<and>
   claimed_preview (demo_archive [(''notes.txt'', ''n''), (''A.PNG'', ''A''), (''b.jpg'', ''B'')]) = ''A''"
proof -
  let ?es = "[(''notes.txt'', ''n''), (''A.PNG'', ''A''), (''b.jpg'', ''B'')]"
  have p: "parse_zip (demo_unpacking ?es []) demo_builtins ''PK'' 100 100 = Inr ([], ''A'')"
    by (simp add: demo_unpack_simps entry_content_def claimed_preview_def)
  have c: "claimed_preview (demo_archive ?es) = ''A''"
    by (simp add: demo_unpack_simps entry_content_def claimed_preview_def)
  have h: "''PK'' \<noteq> [] \<and> open_zip (demo_unpacking ?es []) ''PK'' = Inr (demo_archive ?es) \<and>
    parse_zip (demo_unpacking ?es []) demo_builtins ''PK'' 100 100 = Inr ([], ''A'')"
    using p by (simp add: demo_unpacking_def)
  note t = mp [OF conjunct1 [OF C7_preview_first_nonempty
      [of "''PK''" "demo_unpacking ?es []" "demo_archive ?es" demo_builtins 100 100 "[]" "''A''"]] h]
  from t p c show ?thesis by simp
qed

subsection \<open>Count and order of the detections\<close>

lemma well_formed_record_converts:
  assumes "well_formed_record r"
  shows "\<exists>kv d. r = PDict kv \<and> detection_of B kv W H = Inr d"
proof -
  from assms obtain kv where r: "r = PDict kv"
    by (cases r) (simp_all add: well_formed_record_def)
  from assms r obtain box where
    box: "py_or (py_or (py_or (dict_get kv ''bbox'') (dict_get kv ''box''))
            (dict_get kv ''bounding_box'')) (PDict []) = PDict box"
    and num: "\<forall>p \<in> set box. numeric (snd p)"
    and c1: "dict_get kv ''confidence'' = PNone \<or> numeric (dict_get kv ''confidence'')"
    and c2: "dict_get kv ''score'' = PNone \<or> numeric (dict_get kv ''score'')"
    by (auto simp: well_formed_record_def list_all_iff split: py.splits)
  from box_fields_numeric [OF num] obtain f where "box_fields B box = Inr f" by blast
  from to_pixels_of_fields [OF this] obtain bbox where
    bbox: "to_pixels B (PDict box) W H = Inr bbox" by blast
  from numeric_float [OF or_chain_numeric [OF c1 c2]] obtain c where
    c: "py_float B (py_or (py_or (dict_get kv ''confidence'') (dict_get kv ''score'')) (PInt 0)) = Inr c"
    by blast
  have "\<exists>d. detection_of B kv W H = Inr d"
    unfolding detection_of_def Let_def box by (simp add: bbox c)
  with r show ?thesis by blast
qed

lemma detections_loop_well_formed:
  "\<forall>r \<in> set recs. well_formed_record r \<Longrightarrow>
     \<exists>ds. detections_loop B W H recs acc = Inr (acc @ ds) \<and>
          list_all2 (\<lambda>r d. \<exists>kv. r = PDict kv \<and> detection_of B kv W H = Inr d) recs ds"
proof (induction recs arbitrary: acc)
  case Nil
  show ?case by simp
next
  case (Cons r recs)
  from Cons.prems have "well_formed_record r" by simp
  from well_formed_record_converts [OF this] obtain kv d
    where r: "r = PDict kv" and d: "detection_of B kv W H = Inr d" by blast
  from Cons.prems have "\<forall>r \<in> set recs. well_formed_record r" by simp
  from Cons.IH [OF this, of "acc @ [d]"] obtain ds
    where ds: "detections_loop B W H recs (acc @ [d]) = Inr ((acc @ [d]) @ ds)"
      and all: "list_all2 (\<lambda>r d. \<exists>kv. r = PDict kv \<and> detection_of B kv W H = Inr d) recs ds"
    by blast
  have "detections_loop B W H (r # recs) acc = Inr (acc @ (d # ds))"
    using r d ds by simp
  moreover have "list_all2 (\<lambda>r d. \<exists>kv. r = PDict kv \<and> detection_of B kv W H = Inr d) (r # recs) (d # ds)"
    using r d all by simp
  ultimately show ?case by blast
qed

lemma parse_entries_concat:
  "parse_entries U B zf W H names (ds, ann) = Inr (ds', ann') \<Longrightarrow>
     \<exists>dss. map (entry_detections U B zf W H) names = map Inr dss \<and> ds' = ds @ concat dss"
proof (induction names arbitrary: ds ann)
  case Nil
  then show ?case by simp
next
  case (Cons name names)
  from Cons.prems obtain a2 where
    rest: "(if is_json_name name then
            (case bind_err (zf_read zf name) (json_loads U) of
               Inl _ \<Rightarrow> parse_entries U B zf W H names (ds, a2)
             | Inr data \<Rightarrow>
                 bind_err (extract_detections B data W H) (\<lambda>new.
                   parse_entries U B zf W H names (ds @ new, a2)))
          else parse_entries U B zf W H names (ds, a2)) = Inr (ds', ann')"
    by (auto simp: bind_err_Inr_iff)
  have "\<exists>new. entry_detections U B zf W H name = Inr new \<and>
          parse_entries U B zf W H names (ds @ new, a2) = Inr (ds', ann')"
  proof (cases "is_json_name name")
    case False
    with rest show ?thesis by (simp add: entry_detections_def)
  next
    case True
    show ?thesis
    proof (cases "bind_err (zf_read zf name) (json_loads U)")
      case (Inl e)
      with rest True show ?thesis by (simp add: entry_detections_def)
    next
      case (Inr data)
      with rest True show ?thesis by (auto simp: entry_detections_def bind_err_Inr_iff)
    qed
  qed
  then obtain new where new: "entry_detections U B zf W H name = Inr new"
    and tail: "parse_entries U B zf W H names (ds @ new, a2) = Inr (ds', ann')" by blast
  from Cons.IH [OF tail] obtain dss where
    dss: "map (entry_detections U B zf W H) names = map Inr dss" and eq: "ds' = (ds @ new) @ concat dss"
    by blast
  have "map (entry_detections U B zf W H) (name # names) = map Inr (new # dss)"
    using new dss by simp
  moreover have "ds' = ds @ concat (new # dss)" using eq by simp
  ultimately show ?case by blast
qed

lemma parse_entries_success:
  "\<forall>m \<in> set names. is_image_name m \<longrightarrow> (\<exists>b. zf_read zf m = Inr b) \<Longrightarrow>
   map (entry_detections U B zf W H) names = map Inr dss \<Longrightarrow>
     \<exists>ann'. parse_entries U B zf W H names (ds, ann) = Inr (ds @ concat dss, ann')"
proof (induction names arbitrary: ds ann dss)
  case Nil
  then show ?case by simp
next
  case (Cons name names)
  from Cons.prems(2) obtain new dss' where dss: "dss = new # dss'"
    and new: "entry_detections U B zf W H name = Inr new"
    and tl: "map (entry_detections U B zf W H) names = map Inr dss'"
    by (cases dss) auto
  from Cons.prems(1) have imgs: "\<forall>m \<in> set names. is_image_name m \<longrightarrow> (\<exists>b. zf_read zf m = Inr b)"
    by simp
  from Cons.prems(1) obtain a2 where
    a2: "(if ann = [] \<and> is_image_name name then zf_read zf name else Inr ann) = Inr a2"
    by (cases "ann = [] \<and> is_image_name name") auto
  from Cons.IH [OF imgs tl, of "ds @ new" a2] obtain ann' where
    rest: "parse_entries U B zf W H names (ds @ new, a2) = Inr ((ds @ new) @ concat dss', ann')"
    by blast
  have "parse_entries U B zf W H (name # names) (ds, ann) = Inr (ds @ concat dss, ann')"
  proof (cases "is_json_name name")
    case False
    with new have "new = []" by (simp add: entry_detections_def)
    with False a2 rest dss show ?thesis by simp
  next
    case True
    show ?thesis
    proof (cases "bind_err (zf_read zf name) (json_loads U)")
      case (Inl e)
      with new True have "new = []" by (simp add: entry_detections_def)
      with True Inl a2 rest dss show ?thesis by simp
    next
      case (Inr data)
      with new True have "extract_detections B data W H = Inr new" by (simp add: entry_detections_def)
      with True Inr a2 rest dss show ?thesis by simp
    qed
  qed
  then show ?case by blast
qed

lemma single_document_contributions:
  "filter is_json_name names = [n] \<Longrightarrow> entry_detections U B zf W H n = Inr new \<Longrightarrow>
     \<exists>dss. map (entry_detections U B zf W H) names = map Inr dss \<and> concat dss = new"
proof (induction names)
  case Nil
  then show ?case by simp
next
  case (Cons m names)
  show ?case
  proof (cases "is_json_name m")
    case True
    with Cons.prems(1) have m: "m = n" and none: "filter is_json_name names = []" by simp_all
    from none have "\<forall>x \<in> set names. \<not> is_json_name x" by (simp add: filter_empty_conv)
    then have "map (entry_detections U B zf W H) names = map Inr (replicate (length names) [])"
      by (induction names) (simp_all add: entry_detections_def)
    with m Cons.prems(2) have "map (entry_detections U B zf W H) (m # names) =
        map Inr (new # replicate (length names) [])" by simp
    moreover have "concat (new # replicate (length names) []) = new"
      by (induction names) simp_all
    ultimately show ?thesis by blast
  next
    case False
    with Cons.prems(1) have "filter is_json_name names = [n]" by simp
    from Cons.IH [OF this Cons.prems(2)] obtain dss where
      "map (entry_detections U B zf W H) names = map Inr dss" "concat dss = new" by blast
    with False have "map (entry_detections U B zf W H) (m # names) = map Inr ([] # dss)"
      "concat ([] # dss) = new" by (simp_all add: entry_detections_def)
    then show ?thesis by blast
  qed
qed

text \<open>
  C4. An archive with exactly one JSON document whose key \<open>predictions\<close> holds a list
  of N well-formed records (mappings whose numbers convert to floats) is unpacked to
  exactly N detections, the \<open>i\<close>-th one converted from the \<open>i\<close>-th record. For every archive that is unpacked, the
  detections are the concatenation, in listing order, of the detections of its entries,
  each in the order of its records.
\<close>

theorem C4_unpack_count_order:
  "(zip_bytes \<noteq> [] \<and> open_zip U zip_bytes = Inr zf \<and>
    (\<forall>m \<in> set (namelist zf). is_image_name m \<longrightarrow> (\<exists>b. zf_read zf m = Inr b)) \<and>
    filter is_json_name (namelist zf) = [n] \<and>
    zf_read zf n = Inr raw \<and> json_loads U raw = Inr (PDict kv) \<and>
    dict_get kv ''predictions'' = PList recs \<and>
    (\<forall>r \<in> set recs. well_formed_record r) \<longrightarrow>
      (\<exists>ds preview. parse_zip U B zip_bytes W H = Inr (ds, preview) \<and>
         length ds = length recs \<and>
         list_all2 (\<lambda>r d. \<exists>item. r = PDict item \<and> detection_of B item W H = Inr d) recs ds)) \<and>
   (zip_bytes \<noteq> [] \<and> open_zip U zip_bytes = Inr zf \<and>
    parse_zip U B zip_bytes W H = Inr (ds, preview) \<longrightarrow>
      (\<exists>dss. map (entry_detections U B zf W H) (namelist zf) = map Inr dss \<and> ds = concat dss))"
proof (rule conjI; rule impI)
  assume h: "zip_bytes \<noteq> [] \<and> open_zip U zip_bytes = Inr zf \<and>
    (\<forall>m \<in> set (namelist zf). is_image_name m \<longrightarrow> (\<exists>b. zf_read zf m = Inr b)) \<and>
    filter is_json_name (namelist zf) = [n] \<and>
    zf_read zf n = Inr raw \<and> json_loads U raw = Inr (PDict kv) \<and>
    dict_get kv ''predictions'' = PList recs \<and>
    (\<forall>r \<in> set recs. well_formed_record r)"
  then have ne: "zip_bytes \<noteq> []" and op: "open_zip U zip_bytes = Inr zf"
    and imgs: "\<forall>m \<in> set (namelist zf). is_image_name m \<longrightarrow> (\<exists>b. zf_read zf m = Inr b)"
    and one: "filter is_json_name (namelist zf) = [n]"
    and raw: "zf_read zf n = Inr raw" and doc: "json_loads U raw = Inr (PDict kv)"
    and preds: "dict_get kv ''predictions'' = PList recs"
    and wf: "\<forall>r \<in> set recs. well_formed_record r"
    by blast+
  from detections_loop_well_formed [OF wf, of B W H "[]"] obtain new where
    loop: "detections_loop B W H recs [] = Inr new"
    and all: "list_all2 (\<lambda>r d. \<exists>item. r = PDict item \<and> detection_of B item W H = Inr d) recs new"
    by auto
  from one have "n \<in> set (filter is_json_name (namelist zf))" by simp
  then have json: "is_json_name n" by simp
  have "items_of (PDict kv) = recs" using preds by (simp add: items_of_def)
  with loop have "extract_detections B (PDict kv) W H = Inr new"
    by (simp add: extract_detections_def)
  with json raw doc have "entry_detections U B zf W H n = Inr new"
    by (simp add: entry_detections_def)
  from single_document_contributions [OF one this] obtain dss where
    dss: "map (entry_detections U B zf W H) (namelist zf) = map Inr dss" and cc: "concat dss = new"
    by blast
  from parse_entries_success [OF imgs dss, of "[]" "[]"] cc obtain preview' where
    "parse_entries U B zf W H (namelist zf) ([], []) = Inr (new, preview')" by auto
  with ne op have "parse_zip U B zip_bytes W H = Inr (new, preview')"
    by (simp add: parse_zip_def)
  moreover from all have "length new = length recs" by (simp add: list_all2_lengthD)
  ultimately show "\<exists>ds preview. parse_zip U B zip_bytes W H = Inr (ds, preview) \<and>
         length ds = length recs \<and>
         list_all2 (\<lambda>r d. \<exists>item. r = PDict item \<and> detection_of B item W H = Inr d) recs ds"
    using all by blast
next
  assume "zip_bytes \<noteq> [] \<and> open_zip U zip_bytes = Inr zf \<and>
    parse_zip U B zip_bytes W H = Inr (ds, preview)"
  then have a: "zip_bytes \<noteq> []" and b: "open_zip U zip_bytes = Inr zf"
    and c: "parse_zip U B zip_bytes W H = Inr (ds, preview)"
    by simp_all
  from c have "parse_entries U B zf W H (namelist zf) ([], []) = Inr (ds, preview)"
    unfolding parse_zip_def using a b by simp
  from parse_entries_concat [OF this]
  show "\<exists>dss. map (entry_detections U B zf W H) (namelist zf) = map Inr dss \<and> ds = concat dss"
    by simp
qed



text \<open>
  The theorem at an archive with a preview and one document of two records, and at an
  archive with two documents around one that cannot be decoded.
\<close>

theorem C4_unpack_count_order_witness:
  "parse_zip (demo_unpacking [(''preview.PNG'', ''P''), (''out.json'', ''doc1'')]
      [(''doc1'', PDict [(''predictions'', PList [PDict [(''label'', PStr ''cat''), (''score'', PFloat 0.5)],
                                                   PDict [(''label'', PStr ''dog'')]])])])
      demo_builtins ''PK'' 800 600 =
     Inr ([PDict [(''label'', PStr ''cat''), (''confidence'', PFloat 0.5),
                  (''bbox'', PList [PFloat 0, PFloat 0, PFloat 0, PFloat 0])],
           PDict [(''label'', PStr ''dog''), (''confidence'', PFloat 0),
                  (''bbox'', PList [PFloat 0, PFloat 0, PFloat 0, PFloat 0])]], ''P'') \<and>
   (\<exists>ds preview.
      parse_zip (demo_unpacking [(''preview.PNG'', ''P''), (''out.json'', ''doc1'')]
        [(''doc1'', PDict [(''predictions'', PList [PDict [(''label'', PStr ''cat''), (''score'', PFloat 0.5)],
                                                     PDict [(''label'', PStr ''dog'')]])])])
        demo_builtins ''PK'' 800 600 = Inr (ds, preview) \<and>
      length ds = length [PDict [(''label'', PStr ''cat''), (''score'', PFloat 0.5)], PDict [(''label'', PStr ''dog'')]] \<and>
      list_all2 (\<lambda>r d. \<exists>item. r = PDict item \<and> detection_of demo_builtins item 800 600 = Inr d)
        [PDict [(''label'', PStr ''cat''), (''score'', PFloat 0.5)], PDict [(''label'', PStr ''dog'')]] ds) \<and>
   parse_zip (demo_unpacking [(''a.json'', ''doc1''), (''bad.json'', ''oops''), (''b.json'', ''doc2'')]
      [(''doc1'', PList [PDict [(''label'', PStr ''cat'')], PDict [(''label'', PStr ''dog'')]]),
       (''doc2'', PDict [(''label'', PStr ''owl'')])]) demo_builtins ''PK'' 800 600 =
     Inr ([PDict [(''label'', PStr ''cat''), (''confidence'', PFloat 0),
                  (''bbox'', PList [PFloat 0, PFloat 0, PFloat 0, PFloat 0])],
           PDict [(''label'', PStr ''dog''), (''confidence'', PFloat 0),
                  (''bbox'', PList [PFloat 0, PFloat 0, PFloat 0, PFloat 0])],
           PDict [(''label'', PStr ''owl''), (''confidence'', PFloat 0),
                  (''bbox'', PList [PFloat 0, PFloat 0, PFloat 0, PFloat 0])]], []) \<and>
   (\<exists>dss. map (entry_detections
               (demo_unpacking [(''a.json'', ''doc1''), (''bad.json'', ''oops''), (''b.json'', ''doc2'')]
                  [(''doc1'', PList [PDict [(''label'', PStr ''cat'')], PDict [(''label'', PStr ''dog'')]]),
                   (''doc2'', PDict [(''label'', PStr ''owl'')])])
               demo_builtins
               (demo_archive [(''a.json'', ''doc1''), (''bad.json'', ''oops''), (''b.json'', ''doc2'')]) 800 600)
             [''a.json'', ''bad.json'', ''b.json''] = map Inr dss \<and>
          [PDict [(''label'', PStr ''cat''), (''confidence'', PFloat 0),
                  (''bbox'', PList [PFloat 0, PFloat 0, PFloat 0, PFloat 0])],
           PDict [(''label'', PStr ''dog''), (''confidence'', PFloat 0),
                  (''bbox'', PList [PFloat 0, PFloat 0, PFloat 0, PFloat 0])],
           PDict [(''label'', PStr ''owl''), (''confidence'', PFloat 0),
                  (''bbox'', PList [PFloat 0, PFloat 0, PFloat 0, PFloat 0])]] = concat dss)"
proof -
  let ?recs = "[PDict [(''label'', PStr ''cat''), (''score'', PFloat 0.5)], PDict [(''label'', PStr ''dog'')]]"
  let ?kv = "[(''predictions'', PList ?recs)]"
  let ?es1 = "[(''preview.PNG'', ''P''), (''out.json'', ''doc1'')]"
  let ?U1 = "demo_unpacking ?es1 [(''doc1'', PDict ?kv)]"
  let ?es2 = "[(''a.json'', ''doc1''), (''bad.json'', ''oops''), (''b.json'', ''doc2'')]"
  let ?U2 = "demo_unpacking ?es2
      [(''doc1'', PList [PDict [(''label'', PStr ''cat'')], PDict [(''label'', PStr ''dog'')]]),
       (''doc2'', PDict [(''label'', PStr ''owl'')])]"
  let ?cat = "PDict [(''label'', PStr ''cat''), (''confidence'', PFloat 0),
                  (''bbox'', PList [PFloat 0, PFloat 0, PFloat 0, PFloat 0])]"
  let ?dog = "PDict [(''label'', PStr ''dog''), (''confidence'', PFloat 0),
                  (''bbox'', PList [PFloat 0, PFloat 0, PFloat 0, PFloat 0])]"
  let ?owl = "PDict [(''label'', PStr ''owl''), (''confidence'', PFloat 0),
                  (''bbox'', PList [PFloat 0, PFloat 0, PFloat 0, PFloat 0])]"
  note ev = demo_unpack_simps extract_detections_def items_of_def detection_of_def to_pixels_def
    box_fields_def float_defs get_defs py_or_def py_str_def
  have p1: "parse_zip ?U1 demo_builtins ''PK'' 800 600 =
     Inr ([PDict [(''label'', PStr ''cat''), (''confidence'', PFloat 0.5),
                  (''bbox'', PList [PFloat 0, PFloat 0, PFloat 0, PFloat 0])], ?dog], ''P'')"
    by (simp add: ev)
  have p2: "parse_zip ?U2 demo_builtins ''PK'' 800 600 = Inr ([?cat, ?dog, ?owl], [])"
    by (simp add: ev)
  have h1: "''PK'' \<noteq> [] \<and> open_zip ?U1 ''PK'' = Inr (demo_archive ?es1) \<and>
    (\<forall>m \<in> set (namelist (demo_archive ?es1)). is_image_name m \<longrightarrow>
       (\<exists>b. zf_read (demo_archive ?es1) m = Inr b)) \<and>
    filter is_json_name (namelist (demo_archive ?es1)) = [''out.json''] \<and>
    zf_read (demo_archive ?es1) ''out.json'' = Inr ''doc1'' \<and>
    json_loads ?U1 ''doc1'' = Inr (PDict ?kv) \<and>
    dict_get ?kv ''predictions'' = PList ?recs \<and>
    (\<forall>r \<in> set ?recs. well_formed_record r)"
    by (simp add: demo_unpack_simps well_formed_record_def get_defs py_or_def)
  have h2: "''PK'' \<noteq> [] \<and> open_zip ?U2 ''PK'' = Inr (demo_archive ?es2) \<and>
    parse_zip ?U2 demo_builtins ''PK'' 800 600 = Inr ([?cat, ?dog, ?owl], [])"
    using p2 by (simp add: demo_unpacking_def)
  note t1 = mp [OF conjunct1 [OF C4_unpack_count_order
      [of "''PK''" ?U1 "demo_archive ?es1" "''out.json''" "''doc1''" ?kv ?recs demo_builtins 800 600]] h1]
  note t2 = mp [OF conjunct2 [OF C4_unpack_count_order
      [of "''PK''" ?U2 "demo_archive ?es2" _ _ _ _ demo_builtins 800 600 "[?cat, ?dog, ?owl]" "[]"]] h2]
  have names: "namelist (demo_archive ?es2) = [''a.json'', ''bad.json'', ''b.json'']"
    by (simp add: demo_archive_def)
  from p1 p2 t1 t2 [unfolded names] show ?thesis by blast
qed

subsection \<open>Pipeline orchestrator\<close>









end
